theory Spec2Isabelle
  imports Main "HOL-Library.Multiset" "HOL-Library.AList" "HOL-Library.Log_Nat"
begin

section \<open>JavaScript numbers, values and promises\<close>

text \<open>
  A JavaScript number is a double. The model keeps the doubles that are integers, the two
  infinities and NaN; \<open>Fin n\<close> stands for a double when \<open>n\<close> is one (every integer up to
  \<open>2^53\<close> in magnitude is). Sums, differences and products of such doubles are integers
  again, rounded to the nearest double (ties to the even significand, overflow to an
  infinity), as the IEEE arithmetic of JavaScript does. Fractions are not modelled.
\<close>

datatype jsnum = Fin int | PosInf | NegInf | NaN

text \<open>\<open>2^53\<close>: up to it every integer is a double.\<close>

definition exact_limit :: int where
  "exact_limit = 9007199254740992"

definition round_double :: "int \<Rightarrow> jsnum" where
  "round_double n =
     (if \<bar>n\<bar> \<le> exact_limit then Fin n
      else
        (let m = \<bar>n\<bar>;
             e = nat (bitlen m - 53);
             q = m div 2 ^ e;
             r = m mod 2 ^ e;
             q' = (if 2 ^ e < 2 * r \<or> (2 * r = 2 ^ e \<and> odd q) then q + 1 else q);
             v = q' * 2 ^ e
         in if 2 ^ 1024 \<le> v then (if n < 0 then NegInf else PosInf)
            else Fin (if n < 0 then - v else v)))"

fun js_times :: "jsnum \<Rightarrow> jsnum \<Rightarrow> jsnum" where
  "js_times NaN y = NaN"
| "js_times x NaN = NaN"
| "js_times (Fin a) (Fin b) = round_double (a * b)"
| "js_times (Fin a) PosInf = (if a = 0 then NaN else if 0 < a then PosInf else NegInf)"
| "js_times (Fin a) NegInf = (if a = 0 then NaN else if 0 < a then NegInf else PosInf)"
| "js_times PosInf (Fin b) = (if b = 0 then NaN else if 0 < b then PosInf else NegInf)"
| "js_times NegInf (Fin b) = (if b = 0 then NaN else if 0 < b then NegInf else PosInf)"
| "js_times PosInf PosInf = PosInf"
| "js_times PosInf NegInf = NegInf"
| "js_times NegInf PosInf = NegInf"
| "js_times NegInf NegInf = PosInf"

fun js_plus :: "jsnum \<Rightarrow> jsnum \<Rightarrow> jsnum" where
  "js_plus NaN y = NaN"
| "js_plus x NaN = NaN"
| "js_plus (Fin a) (Fin b) = round_double (a + b)"
| "js_plus PosInf NegInf = NaN"
| "js_plus NegInf PosInf = NaN"
| "js_plus PosInf y = PosInf"
| "js_plus NegInf y = NegInf"
| "js_plus x PosInf = PosInf"
| "js_plus x NegInf = NegInf"

fun js_negate :: "jsnum \<Rightarrow> jsnum" where
  "js_negate (Fin a) = Fin (- a)"
| "js_negate PosInf = NegInf"
| "js_negate NegInf = PosInf"
| "js_negate NaN = NaN"

definition js_minus :: "jsnum \<Rightarrow> jsnum \<Rightarrow> jsnum" where
  "js_minus x y = js_plus x (js_negate y)"

text \<open>The comparison \<open>x < y\<close>: false as soon as one side is NaN.\<close>

fun js_less :: "jsnum \<Rightarrow> jsnum \<Rightarrow> bool" where
  "js_less NaN y = False"
| "js_less x NaN = False"
| "js_less (Fin a) (Fin b) = (a < b)"
| "js_less x NegInf = False"
| "js_less PosInf y = False"
| "js_less NegInf y = True"
| "js_less x PosInf = True"

text \<open>\<open>Math.max\<close> and \<open>Math.min\<close> of two numbers: NaN as soon as one of them is NaN.\<close>

definition Math_max :: "jsnum \<Rightarrow> jsnum \<Rightarrow> jsnum" where
  "Math_max x y = (if x = NaN \<or> y = NaN then NaN else if js_less x y then y else x)"

definition Math_min :: "jsnum \<Rightarrow> jsnum \<Rightarrow> jsnum" where
  "Math_min x y = (if x = NaN \<or> y = NaN then NaN else if js_less y x then y else x)"

text \<open>
  The values a metadata object holds: undefined, null, booleans and numbers. Strings and
  objects, whose conversion to a number needs the string grammar, are left out.
\<close>

datatype jsval = JUndefined | JNull | JBool bool | JNum jsnum

fun ToNumber :: "jsval \<Rightarrow> jsnum" where
  "ToNumber JUndefined = NaN"
| "ToNumber JNull = Fin 0"
| "ToNumber (JBool b) = Fin (if b then 1 else 0)"
| "ToNumber (JNum n) = n"

text \<open>The global \<open>isFinite\<close> converts its argument to a number first.\<close>

definition isFinite :: "jsval \<Rightarrow> bool" where
  "isFinite v = (case ToNumber v of Fin n \<Rightarrow> True | _ \<Rightarrow> False)"

text \<open>
  A metadata object \<open>{[id: string]: any}\<close>, as an association list in property order:
  \<open>key in m\<close>, \<open>m.key\<close> and \<open>m.key = v\<close>.
\<close>

type_synonym metadata = "(string \<times> jsval) list"

definition has_key :: "string \<Rightarrow> metadata \<Rightarrow> bool" where
  "has_key key m = (map_of m key \<noteq> None)"

definition get_prop :: "metadata \<Rightarrow> string \<Rightarrow> jsval" where
  "get_prop m key = (case map_of m key of None \<Rightarrow> JUndefined | Some v \<Rightarrow> v)"

definition set_prop :: "metadata \<Rightarrow> string \<Rightarrow> jsval \<Rightarrow> metadata" where
  "set_prop m key v = AList.update key v m"

text \<open>Everything the modelled code throws, or a promise rejects with.\<close>

datatype error =
    JoinFailure
  | TypeError
  | MissingMetadata
  | MissingMetadataValue
  | RequiresSources string jsnum bool nat
  | InvalidJoinEntryType string
  | InvalidQueryOutputType string
  | NoActorCouldHandle
  | Rejected string

text \<open>A settled promise: rejected with an error or resolved with a value.\<close>

type_synonym 'a promise = "error + 'a"

text \<open>
  \<open>Promise.all\<close>: the list of the values when every promise resolves, otherwise a rejection
  (here that of the first rejected promise of the list).
\<close>

fun promise_all :: "'a promise list \<Rightarrow> 'a list promise" where
  "promise_all [] = Inr []"
| "promise_all (p # ps) =
     (case p of
        Inl e \<Rightarrow> Inl e
      | Inr v \<Rightarrow> (case promise_all ps of Inl e \<Rightarrow> Inl e | Inr vs \<Rightarrow> Inr (v # vs)))"

section \<open>Terms and bindings\<close>

text \<open>
  Modelled from the spec: an RDF term (the \<open>rdf-js\<close> library type \<open>RDF.Term\<close>) is a tagged
  variant over named node, blank node, literal (lexical form, datatype IRI, optional language
  tag), default graph and variable, and \<open>equals\<close> is structural equality.
\<close>

datatype rdf_term =
    NamedNode string
  | BlankNode string
  | RdfLiteral string string "string option"
  | DefaultGraph
  | Variable string

definition equals :: "rdf_term \<Rightarrow> rdf_term \<Rightarrow> bool" where
  "equals left right = (left = right)"

text \<open>
  \<open>Bindings\<close> is an Immutable.js \<open>Map\<close> from variable names to terms. It is modelled as an
  association list in the map's iteration order; a well-formed one has no key twice.
\<close>

type_synonym bindings = "(string \<times> rdf_term) list"

definition wf_bindings :: "bindings \<Rightarrow> bool" where
  "wf_bindings b = distinct (map fst b)"

section \<open>ActorRdfJoin.join\<close>

text \<open>The merger passed to \<open>mergeWith\<close>: throws on unequal terms, otherwise keeps the left one.\<close>

definition merger :: "rdf_term \<Rightarrow> rdf_term \<Rightarrow> error + rdf_term" where
  "merger left right = (if \<not> equals left right then Inl JoinFailure else Inr left)"

text \<open>
  Modelled from the spec: Immutable.js \<open>acc.mergeWith(f, val)\<close> visits the entries of \<open>val\<close>
  in order; a key absent from \<open>acc\<close> is set to the value of \<open>val\<close>, a key present in both is
  set to \<open>f old new\<close>. An exception thrown by \<open>f\<close> aborts the merge.
\<close>

fun mergeWith :: "(rdf_term \<Rightarrow> rdf_term \<Rightarrow> error + rdf_term) \<Rightarrow> bindings \<Rightarrow> bindings \<Rightarrow> error + bindings" where
  "mergeWith f acc [] = Inr acc"
| "mergeWith f acc ((k, r) # rest) =
     (case map_of acc k of
        None \<Rightarrow> mergeWith f (acc @ [(k, r)]) rest
      | Some l \<Rightarrow>
          (case f l r of
             Inl e \<Rightarrow> Inl e
           | Inr v \<Rightarrow> mergeWith f (AList.update k v acc) rest))"

text \<open>\<open>Array.prototype.reduce\<close> without an initial value, once the first element is taken.\<close>

fun reduce_mergeWith :: "bindings \<Rightarrow> bindings list \<Rightarrow> error + bindings" where
  "reduce_mergeWith acc [] = Inr acc"
| "reduce_mergeWith acc (val # vals) =
     (case mergeWith merger acc val of
        Inl e \<Rightarrow> Inl e
      | Inr acc' \<Rightarrow> reduce_mergeWith acc' vals)"

text \<open>The body of the \<open>try\<close> block: \<open>reduce\<close> of an empty array throws a TypeError.\<close>

definition join_try :: "bindings list \<Rightarrow> error + bindings" where
  "join_try bs = (case bs of [] \<Rightarrow> Inl TypeError | b # rest \<Rightarrow> reduce_mergeWith b rest)"

text \<open>\<open>ActorRdfJoin.join(...bindings)\<close>: every error is caught and becomes \<open>null\<close>.\<close>

definition join :: "bindings list \<Rightarrow> bindings option" where
  "join bs = (case join_try bs of Inl e \<Rightarrow> None | Inr b \<Rightarrow> Some b)"

text \<open>
  Modelled from the spec: the nested-loop join actor (its \<open>getOutput\<close> is not under src/):
  for each left bindings, iterate the right; emit merged compatibles.
\<close>

fun nestedLoop_right :: "bindings \<Rightarrow> bindings list \<Rightarrow> bindings list" where
  "nestedLoop_right l [] = []"
| "nestedLoop_right l (r # rs) =
     (case join [l, r] of
        None \<Rightarrow> nestedLoop_right l rs
      | Some u \<Rightarrow> u # nestedLoop_right l rs)"

fun nestedLoopJoin :: "bindings list \<Rightarrow> bindings list \<Rightarrow> bindings list" where
  "nestedLoopJoin [] right = []"
| "nestedLoopJoin (l # ls) right = nestedLoop_right l right @ nestedLoopJoin ls right"

text \<open>
  The words of the data model: two bindings are compatible iff every variable in both has
  equal terms.
\<close>

definition shared_equal :: "bindings \<Rightarrow> bindings \<Rightarrow> bool" where
  "shared_equal a b = (\<forall>k l r. map_of a k = Some l \<longrightarrow> map_of b k = Some r \<longrightarrow> l = r)"

text \<open>The bindings, as a finite map, that a pair contributes to a join (none when no join).\<close>

definition joined :: "bindings \<Rightarrow> bindings \<Rightarrow> (string \<rightharpoonup> rdf_term) multiset" where
  "joined l r = (case join [l, r] of None \<Rightarrow> {#} | Some u \<Rightarrow> {#map_of u#})"

section \<open>ActorRdfJoin: test and run\<close>

text \<open>
  \<open>IActorQueryOperationOutputBindings\<close>. The stream is the list of the bindings it emits;
  the metadata thunk is absent or a promise of a metadata object.
\<close>

record bindings_output =
  otype :: string
  bindingsStream :: "bindings list"
  metadata :: "metadata promise option"
  variables :: "string list"

record join_action =
  entries :: "bindings_output list"

text \<open>
  A join actor: the two limit fields and the two abstract methods of the subclass. What
  \<open>getOutput\<close> does besides returning is a change of a state \<open>'s\<close>.
\<close>

record 's join_actor =
  name :: string
  limitEntries :: jsnum
  limitEntriesMin :: bool
  getOutput :: "join_action \<Rightarrow> 's \<Rightarrow> bindings_output promise \<times> 's"
  getIterations :: "join_action \<Rightarrow> jsnum promise"

text \<open>The constructor: \<open>limitEntries ?? Infinity\<close> and \<open>limitEntriesMin ?? false\<close>.\<close>

definition ActorRdfJoin ::
  "string \<Rightarrow> jsnum option \<Rightarrow> bool option
   \<Rightarrow> (join_action \<Rightarrow> 's \<Rightarrow> bindings_output promise \<times> 's)
   \<Rightarrow> (join_action \<Rightarrow> jsnum promise) \<Rightarrow> 's join_actor" where
  "ActorRdfJoin nm limit limitMin out its =
     \<lparr> name = nm,
       limitEntries = (case limit of None \<Rightarrow> PosInf | Some l \<Rightarrow> l),
       limitEntriesMin = (case limitMin of None \<Rightarrow> False | Some b \<Rightarrow> b),
       getOutput = out,
       getIterations = its \<rparr>"

text \<open>The callback of \<open>iteratorsHaveMetadata\<close> for one entry.\<close>

definition entry_has_metadata :: "string \<Rightarrow> bindings_output \<Rightarrow> unit promise" where
  "entry_has_metadata key entry =
     (case metadata entry of
        None \<Rightarrow> Inl MissingMetadata
      | Some p \<Rightarrow>
          (case p of
             Inl e \<Rightarrow> Inl e
           | Inr m \<Rightarrow> if \<not> has_key key m then Inl MissingMetadataValue else Inr ()))"

definition iteratorsHaveMetadata :: "join_action \<Rightarrow> string \<Rightarrow> bool" where
  "iteratorsHaveMetadata action key =
     (case promise_all (map (entry_has_metadata key) (entries action)) of
        Inl e \<Rightarrow> False
      | Inr u \<Rightarrow> True)"

text \<open>The limit check of \<open>test\<close>.\<close>

definition violates_limit :: "'s join_actor \<Rightarrow> nat \<Rightarrow> bool" where
  "violates_limit actor n =
     (if limitEntriesMin actor then js_less (Fin (int n)) (limitEntries actor)
      else js_less (limitEntries actor) (Fin (int n)))"

text \<open>\<open>ActorRdfJoin.test\<close>; the result is the \<open>iterations\<close> field of the test output.\<close>

definition ActorRdfJoin_test :: "'s join_actor \<Rightarrow> join_action \<Rightarrow> jsnum promise" where
  "ActorRdfJoin_test actor action =
     (if length (entries action) \<le> 1 then Inr (Fin 0)
      else if violates_limit actor (length (entries action))
      then Inl (RequiresSources (name actor) (limitEntries actor) (limitEntriesMin actor)
                  (length (entries action)))
      else
        (case find (\<lambda>entry. otype entry \<noteq> ''bindings'') (entries action) of
           Some entry \<Rightarrow> Inl (InvalidJoinEntryType (otype entry))
         | None \<Rightarrow>
             if \<not> iteratorsHaveMetadata action ''totalItems'' then Inr PosInf
             else getIterations actor action))"

text \<open>
  The local function \<open>totalItems\<close> of \<open>run\<close>: calling an absent metadata thunk is a
  TypeError.
\<close>

definition totalItems :: "join_action \<Rightarrow> jsnum promise" where
  "totalItems action =
     (case promise_all
             (map (\<lambda>entry. case metadata entry of None \<Rightarrow> Inl TypeError | Some p \<Rightarrow> p)
                (entries action)) of
        Inl e \<Rightarrow> Inl e
      | Inr metadatas \<Rightarrow>
          Inr (foldl (\<lambda>acc val. js_times acc (ToNumber (get_prop val ''totalItems'')))
                 (Fin 1) metadatas))"

text \<open>The metadata thunk that \<open>run\<close> installs on the output of the subclass.\<close>

definition updated_metadata :: "join_action \<Rightarrow> metadata promise option \<Rightarrow> metadata promise" where
  "updated_metadata action old =
     (case old of
        Some oldMetadata \<Rightarrow>
          (case oldMetadata of
             Inl e \<Rightarrow> Inl e
           | Inr m \<Rightarrow>
               if \<not> has_key ''totalItems'' m
               then (case totalItems action of
                       Inl e \<Rightarrow> Inl e
                     | Inr v \<Rightarrow> Inr (set_prop m ''totalItems'' (JNum v)))
               else Inr m)
      | None \<Rightarrow>
          (case totalItems action of
             Inl e \<Rightarrow> Inl e
           | Inr totalItemsValue \<Rightarrow> Inr [(''totalItems'', JNum totalItemsValue)]))"

text \<open>\<open>ActorRdfJoin.run\<close>, with the state that \<open>getOutput\<close> may change.\<close>

definition ActorRdfJoin_run ::
  "'s join_actor \<Rightarrow> join_action \<Rightarrow> 's \<Rightarrow> bindings_output promise \<times> 's" where
  "ActorRdfJoin_run actor action s =
     (if length (entries action) = 0
      then (Inr \<lparr> otype = ''bindings'', bindingsStream = [],
                  metadata = Some (Inr [(''totalItems'', JNum (Fin 0))]),
                  variables = [] \<rparr>, s)
      else if length (entries action) = 1 then (Inr (entries action ! 0), s)
      else
        (case getOutput actor action s of
           (result, s') \<Rightarrow>
             if iteratorsHaveMetadata action ''totalItems''
             then (case result of
                     Inl e \<Rightarrow> (Inl e, s')
                   | Inr unwrapped \<Rightarrow>
                       (Inr (unwrapped\<lparr>metadata :=
                               Some (updated_metadata action (metadata unwrapped))\<rparr>), s'))
             else (result, s')))"

text \<open>
  Modelled from the spec: the join mediator (class \<open>Mediator\<close> of the core package with the
  minimum-iterations policy, not under src/). \<open>mediate(action)\<close> awaits all test replies,
  rejects those that failed, picks the actor with the minimum estimated iterations and invokes
  \<open>run\<close> on the winner; when no actor passed its test it fails.
\<close>

fun passed_tests :: "'s join_actor list \<Rightarrow> join_action \<Rightarrow> ('s join_actor \<times> jsnum) list" where
  "passed_tests [] action = []"
| "passed_tests (a # as) action =
     (case ActorRdfJoin_test a action of
        Inl e \<Rightarrow> passed_tests as action
      | Inr iterations \<Rightarrow> (a, iterations) # passed_tests as action)"

fun minimum_iterations :: "('s join_actor \<times> jsnum) list \<Rightarrow> ('s join_actor \<times> jsnum) option" where
  "minimum_iterations [] = None"
| "minimum_iterations (r # rs) =
     (case minimum_iterations rs of
        None \<Rightarrow> Some r
      | Some best \<Rightarrow> if js_less (snd best) (snd r) then Some best else Some r)"

definition mediate_winner :: "'s join_actor list \<Rightarrow> join_action \<Rightarrow> 's join_actor option" where
  "mediate_winner bus action = map_option fst (minimum_iterations (passed_tests bus action))"

definition mediate ::
  "'s join_actor list \<Rightarrow> join_action \<Rightarrow> 's \<Rightarrow> bindings_output promise \<times> 's" where
  "mediate bus action s =
     (case mediate_winner bus action of
        None \<Rightarrow> (Inl NoActorCouldHandle, s)
      | Some winner \<Rightarrow> ActorRdfJoin_run winner action s)"

section \<open>ActorQueryOperationSlice\<close>

text \<open>\<open>Algebra.Slice\<close>: \<open>start\<close> and the optional \<open>length\<close> (absent is \<open>None\<close>).\<close>

record slice_pattern =
  start :: int
  length' :: "int option"

text \<open>\<open>Boolean(pattern.length) || pattern.length === 0\<close>.\<close>

definition hasLength :: "slice_pattern \<Rightarrow> bool" where
  "hasLength pattern = (case length' pattern of None \<Rightarrow> False | Some l \<Rightarrow> l \<noteq> 0 \<or> l = 0)"

text \<open>
  Modelled from the spec: streams expose take/skip; \<open>stream.transform({offset, limit})\<close> of
  the asynciterator library (not under src/) skips the first \<open>offset\<close> items and then emits
  at most \<open>limit\<close> items. Its constructor clamps a finite bound to a natural number, keeps no
  item when the offset is \<open>Infinity\<close> or the limit \<open>-Infinity\<close>, and ignores any other bound;
  its read loop counts the offset down, then the limit.
\<close>

record transform_options =
  offset :: jsnum
  limit :: jsnum

fun transform_read :: "nat \<Rightarrow> nat option \<Rightarrow> 'a list \<Rightarrow> 'a list" where
  "transform_read off lmt [] = []"
| "transform_read off lmt (item # source) =
     (if lmt = Some 0 then []
      else if off \<noteq> 0 then transform_read (off - 1) lmt source
      else item # transform_read 0 (map_option (\<lambda>n. n - 1) lmt) source)"

definition transform :: "transform_options \<Rightarrow> 'a list \<Rightarrow> 'a list" where
  "transform options source =
     (if offset options = PosInf \<or> limit options = NegInf then []
      else transform_read
             (case offset options of Fin n \<Rightarrow> nat (max n 0) | _ \<Rightarrow> 0)
             (case limit options of Fin n \<Rightarrow> Some (nat (max n 0)) | _ \<Rightarrow> None)
             source)"

definition sliceStream :: "'a list \<Rightarrow> slice_pattern \<Rightarrow> 'a list" where
  "sliceStream stream pattern =
     (let end' = (case length' pattern of
                    Some l \<Rightarrow>
                      if hasLength pattern
                      then js_minus (js_plus (Fin (start pattern)) (Fin l)) (Fin 1)
                      else PosInf
                  | None \<Rightarrow> PosInf)
      in transform
           \<lparr> offset = Fin (start pattern),
             limit = Math_max (js_plus (js_minus end' (Fin (start pattern))) (Fin 1)) (Fin 0) \<rparr>
           stream)"

text \<open>The callback that \<open>sliceMetadata\<close> chains on the metadata promise of the input.\<close>

definition slicedMetadata :: "slice_pattern \<Rightarrow> metadata \<Rightarrow> metadata" where
  "slicedMetadata pattern subMetadata =
     (let total = get_prop subMetadata ''totalItems'';
          total1 = (if isFinite total
                    then (let t = Math_max (Fin 0) (js_minus (ToNumber total) (Fin (start pattern)))
                          in JNum (case length' pattern of
                                     Some l \<Rightarrow> if hasLength pattern then Math_min t (Fin l) else t
                                   | None \<Rightarrow> t))
                    else total)
      in set_prop subMetadata ''totalItems'' total1)"

definition sliceMetadata :: "metadata promise option \<Rightarrow> slice_pattern \<Rightarrow> metadata promise option" where
  "sliceMetadata output_metadata pattern =
     (case output_metadata of
        None \<Rightarrow> None
      | Some p \<Rightarrow>
          Some (case p of
                  Inl e \<Rightarrow> Inl e
                | Inr subMetadata \<Rightarrow> Inr (slicedMetadata pattern subMetadata)))"

text \<open>
  \<open>IActorQueryOperationOutputStream\<close>: the \<open>type\<close> tag, the bindings or quad stream, the
  metadata thunk and, for bindings, the variables.
\<close>

record 'a output_stream =
  stream_type :: string
  stream_items :: "'a list"
  stream_metadata :: "metadata promise option"
  stream_variables :: "string list"

text \<open>\<open>runOperation\<close>, given what the query-operation mediator resolved the input to.\<close>

definition runOperation :: "'a output_stream promise \<Rightarrow> slice_pattern \<Rightarrow> 'a output_stream promise" where
  "runOperation mediated pattern =
     (case mediated of
        Inl e \<Rightarrow> Inl e
      | Inr output \<Rightarrow>
          (let sliced = sliceMetadata (stream_metadata output) pattern
           in if stream_type output = ''bindings''
              then Inr \<lparr> stream_type = ''bindings'',
                         stream_items = sliceStream (stream_items output) pattern,
                         stream_metadata = sliced,
                         stream_variables = stream_variables output \<rparr>
              else if stream_type output = ''quads''
              then Inr \<lparr> stream_type = ''quads'',
                         stream_items = sliceStream (stream_items output) pattern,
                         stream_metadata = sliced,
                         stream_variables = [] \<rparr>
              else Inl (InvalidQueryOutputType (stream_type output))))"

section \<open>ActorHttpNative.run\<close>

text \<open>
  A \<open>Headers\<close> object keeps one entry per name, the names in lower case: \<open>has\<close>, \<open>get\<close> and
  \<open>append\<close> lower-case the name they are given, and \<open>append\<close> on a name that is present
  joins the values. \<open>new Headers(init)\<close> appends the pairs of \<open>init\<close> one by one.
\<close>

definition lower_char :: "char \<Rightarrow> char" where
  "lower_char c =
     (case map_of (zip ''ABCDEFGHIJKLMNOPQRSTUVWXYZ'' ''abcdefghijklmnopqrstuvwxyz'') c of
        Some l \<Rightarrow> l
      | None \<Rightarrow> c)"

definition lower :: "string \<Rightarrow> string" where
  "lower n = map lower_char n"

type_synonym headers = "(string \<times> string) list"

definition headers_has :: "headers \<Rightarrow> string \<Rightarrow> bool" where
  "headers_has h n = (map_of h (lower n) \<noteq> None)"

definition headers_append :: "headers \<Rightarrow> string \<Rightarrow> string \<Rightarrow> headers" where
  "headers_append h n v =
     (case map_of h (lower n) of
        None \<Rightarrow> h @ [(lower n, v)]
      | Some old \<Rightarrow> AList.update (lower n) (old @ '', '' @ v) h)"

definition Headers :: "(string \<times> string) list \<Rightarrow> headers" where
  "Headers pairs = foldl (\<lambda>h (n, v). headers_append h n v) [] pairs"

text \<open>
  The values of an \<open>ActionContext\<close>, and of the \<open>withCredentials\<close> and \<open>auth\<close> fields, with
  the JavaScript truth test on what \<open>get\<close> returns (\<open>None\<close> is \<open>undefined\<close>).
\<close>

datatype ctxval = CBool bool | CStr string

type_synonym action_context = "(string \<times> ctxval) list"

definition ctx_get :: "action_context \<Rightarrow> string \<Rightarrow> ctxval option" where
  "ctx_get ctx key = map_of ctx key"

fun truthy :: "ctxval option \<Rightarrow> bool" where
  "truthy None = False"
| "truthy (Some (CBool b)) = b"
| "truthy (Some (CStr s)) = (s \<noteq> [])"

text \<open>
  The input is a URL string or a \<open>Request\<close> object, whose URL, method and headers are
  accessors of the class and not own properties of the object. \<open>init\<close> is the object given
  as \<open>RequestInit\<close>: of its own properties the method, the headers (pairs of a name in any
  case and a value), the body, \<open>withCredentials\<close> and \<open>auth\<close> are modelled; an absent one
  is \<open>None\<close>.
\<close>

record request =
  req_url :: string
  req_method :: string
  req_headers :: headers

datatype http_input = InputString string | InputRequest request

record request_init =
  init_method :: "string option"
  init_headers :: "(string \<times> string) list option"
  init_body :: "string option"
  init_withCredentials :: "ctxval option"
  init_auth :: "ctxval option"

text \<open>
  Modelled from the spec: the context keys of the include-credentials flag and of the
  authentication string (constants of the bus-http package, not under src/).
\<close>

definition KEY_CONTEXT_INCLUDE_CREDENTIALS :: string where
  "KEY_CONTEXT_INCLUDE_CREDENTIALS = ''@comunica/bus-http:include-credentials''"

definition KEY_CONTEXT_AUTH :: string where
  "KEY_CONTEXT_AUTH = ''@comunica/bus-http:auth''"

record http_action =
  input :: http_input
  init :: "request_init option"
  context' :: "action_context option"

text \<open>The \<open>options\<close> object handed to the requester; an unset field is \<open>None\<close>.\<close>

record request_options =
  opt_url :: http_input
  opt_method :: "string option"
  opt_headers :: "headers option"
  opt_body :: "string option"
  withCredentials :: "ctxval option"
  auth :: "ctxval option"

record http_response =
  statusCode :: int
  responseUrl :: string
  response_headers :: headers

datatype request_events =
    RequestError error
  | Response http_response "error option"

record http_output =
  body :: http_response
  headers :: headers
  ok :: bool
  redirected :: bool
  status :: int
  url :: string

record http_actor =
  userAgent :: string
  createRequest :: "request_options \<Rightarrow> request_events"

text \<open>
  Lines 34 to 42: the URL. \<open>Object.assign(options, action.input)\<close> copies the own
  properties of a \<open>Request\<close>, which has none of the modelled ones.
\<close>

definition options_of_input :: "http_input \<Rightarrow> request_options" where
  "options_of_input inp =
     (case inp of
        InputRequest r \<Rightarrow>
          if req_url r \<noteq> []
          then \<lparr> opt_url = InputString (req_url r), opt_method = None,
                 opt_headers = None, opt_body = None,
                 withCredentials = None, auth = None \<rparr>
          else \<lparr> opt_url = inp, opt_method = None, opt_headers = None, opt_body = None,
                 withCredentials = None, auth = None \<rparr>
      | InputString s \<Rightarrow>
          \<lparr> opt_url = inp, opt_method = None, opt_headers = None, opt_body = None,
            withCredentials = None, auth = None \<rparr>)"

text \<open>
  Lines 44 to 49: \<open>Object.assign(options, action.init)\<close> copies every own property of
  \<open>init\<close>; then the headers are \<open>new Headers(action.init.headers)\<close>, or those of the input.
\<close>

definition options_of_init :: "http_action \<Rightarrow> request_options \<Rightarrow> request_options" where
  "options_of_init action options =
     (case init action of
        Some i \<Rightarrow>
          options\<lparr> opt_method := (case init_method i of Some m \<Rightarrow> Some m | None \<Rightarrow> opt_method options),
                   opt_body := (case init_body i of Some b \<Rightarrow> Some b | None \<Rightarrow> opt_body options),
                   withCredentials :=
                     (case init_withCredentials i of
                        Some c \<Rightarrow> Some c
                      | None \<Rightarrow> withCredentials options),
                   auth := (case init_auth i of Some a \<Rightarrow> Some a | None \<Rightarrow> auth options),
                   opt_headers := Some (Headers (case init_headers i of Some h \<Rightarrow> h | None \<Rightarrow> [])) \<rparr>
      | None \<Rightarrow>
          options\<lparr> opt_headers :=
                     (case input action of
                        InputRequest r \<Rightarrow> Some (req_headers r)
                      | InputString s \<Rightarrow> None) \<rparr>)"

text \<open>Lines 51 to 56: default headers and the user agent.\<close>

definition options_user_agent :: "http_actor \<Rightarrow> request_options \<Rightarrow> request_options" where
  "options_user_agent actor options =
     (let hs = (case opt_headers options of None \<Rightarrow> [] | Some h \<Rightarrow> h)
      in options\<lparr> opt_headers :=
                    Some (if \<not> headers_has hs ''user-agent''
                          then headers_append hs ''user-agent'' (userAgent actor)
                          else hs) \<rparr>)"

text \<open>Lines 58 to 65: the method, \<open>withCredentials\<close> and \<open>auth\<close>.\<close>

definition options_of_context :: "http_action \<Rightarrow> request_options \<Rightarrow> request_options" where
  "options_of_context action options =
     (let options1 = options\<lparr> opt_method :=
                        Some (case opt_method options of
                                Some m \<Rightarrow> if m \<noteq> [] then m else ''GET''
                              | None \<Rightarrow> ''GET'') \<rparr>;
          options2 = (case context' action of
                        Some ctx \<Rightarrow>
                          if truthy (ctx_get ctx KEY_CONTEXT_INCLUDE_CREDENTIALS)
                          then options1\<lparr> withCredentials := Some (CBool True) \<rparr>
                          else options1
                      | None \<Rightarrow> options1)
      in (case context' action of
            Some ctx \<Rightarrow>
              if truthy (ctx_get ctx KEY_CONTEXT_AUTH)
              then options2\<lparr> auth := ctx_get ctx KEY_CONTEXT_AUTH \<rparr>
              else options2
          | None \<Rightarrow> options2))"

definition request_options_of :: "http_actor \<Rightarrow> http_action \<Rightarrow> request_options" where
  "request_options_of actor action =
     options_of_context action
       (options_user_agent actor (options_of_init action (options_of_input (input action))))"

text \<open>Lines 92 to 102: the result built from the response.\<close>

definition http_result :: "request_options \<Rightarrow> http_response \<Rightarrow> http_output" where
  "http_result options httpResponse =
     \<lparr> body = httpResponse,
       headers = response_headers httpResponse,
       ok = (statusCode httpResponse < 300),
       redirected = (opt_url options \<noteq> InputString (responseUrl httpResponse)),
       status = statusCode httpResponse,
       url = (case map_of (response_headers httpResponse) ''content-location'' of
                Some location \<Rightarrow> location
              | None \<Rightarrow> responseUrl httpResponse) \<rparr>"

text \<open>
  \<open>ActorHttpNative.run\<close>: an error event of the request, or of the response before the
  deferred callback runs, rejects the promise; otherwise it resolves with the result.
\<close>

definition ActorHttpNative_run :: "http_actor \<Rightarrow> http_action \<Rightarrow> http_output promise" where
  "ActorHttpNative_run actor action =
     (let options = request_options_of actor action
      in case createRequest actor options of
           RequestError e \<Rightarrow> Inl e
         | Response httpResponse failure \<Rightarrow>
             (case failure of
                Some e \<Rightarrow> Inl e
              | None \<Rightarrow> Inr (http_result options httpResponse)))"

section \<open>Runner.run\<close>

text \<open>
  An actor of the init bus: its test and its \<open>runObservable\<close>, which may change a state
  \<open>'s\<close> besides returning a promise.
\<close>

record ('a, 't, 'o, 's) init_actor =
  actor_name :: string
  actor_test :: "'a \<Rightarrow> 't promise"
  runObservable :: "'a \<Rightarrow> 's \<Rightarrow> 'o promise \<times> 's"

record ('a, 't, 'o, 's) actor_reply =
  actor' :: "('a, 't, 'o, 's) init_actor"
  reply :: "'t promise"

text \<open>
  Modelled from the spec: a bus (class \<open>Bus\<close> of the core package, not under src/) holds an
  ordered set of actors and \<open>publish(action)\<close> returns, for each actor, its pending test reply.
\<close>

definition publish ::
  "('a, 't, 'o, 's) init_actor list \<Rightarrow> 'a \<Rightarrow> ('a, 't, 'o, 's) actor_reply list" where
  "publish bus action = map (\<lambda>a. \<lparr> actor' = a, reply = actor_test a action \<rparr>) bus"

text \<open>\<open>replies.map(reply => reply.actor.runObservable(action))\<close>, one call after the other.\<close>

fun run_replies ::
  "('a, 't, 'o, 's) actor_reply list \<Rightarrow> 'a \<Rightarrow> 's \<Rightarrow> 'o promise list \<times> 's" where
  "run_replies [] action s = ([], s)"
| "run_replies (r # rs) action s =
     (case runObservable (actor' r) action s of
        (p, s1) \<Rightarrow> (case run_replies rs action s1 of (ps, s2) \<Rightarrow> (p # ps, s2)))"

text \<open>
  \<open>Runner.run\<close>. The replies are plain objects, so the first \<open>Promise.all\<close> resolves with
  them as they are, whatever their test promises do.
\<close>

definition Runner_run ::
  "('a, 't, 'o, 's) init_actor list \<Rightarrow> 'a \<Rightarrow> 's \<Rightarrow> 'o list promise \<times> 's" where
  "Runner_run busInit action s =
     (let replies = publish busInit action
      in case run_replies replies action s of (ps, s') \<Rightarrow> (promise_all ps, s'))"

section \<open>Notions used to state the properties\<close>

text \<open>
  A safe integer (\<open>Number.isSafeInteger\<close>): below \<open>2^53\<close> in magnitude. The \<open>totalItems\<close>
  value of an entry's metadata, as a number.
\<close>

definition safe_integer :: "int \<Rightarrow> bool" where
  "safe_integer n = (\<bar>n\<bar> < exact_limit)"

definition entry_totalItems :: "bindings_output \<Rightarrow> jsnum" where
  "entry_totalItems entry =
     (case metadata entry of
        Some (Inr m) \<Rightarrow> ToNumber (get_prop m ''totalItems'')
      | _ \<Rightarrow> NaN)"

text \<open>
  The headers the caller gives in \<open>init\<close> and in a \<open>Request\<close> input, the fields
  \<open>withCredentials\<close> and \<open>auth\<close> of \<open>init\<close>, and what \<open>action.context.get(key)\<close> returns.
\<close>

definition init_headers_of :: "http_action \<Rightarrow> headers" where
  "init_headers_of action =
     (case init action of
        Some i \<Rightarrow> Headers (case init_headers i of Some h \<Rightarrow> h | None \<Rightarrow> [])
      | None \<Rightarrow> [])"

definition input_headers_of :: "http_action \<Rightarrow> headers" where
  "input_headers_of action =
     (case input action of InputRequest r \<Rightarrow> req_headers r | InputString s \<Rightarrow> [])"

text \<open>
  The caller supplied a user agent: a pair of \<open>init.headers\<close> is named user-agent in some
  case, or the headers of a \<open>Request\<close> input have one.
\<close>

definition caller_user_agent :: "http_action \<Rightarrow> bool" where
  "caller_user_agent action =
     ((case init action of
         Some i \<Rightarrow>
           (case init_headers i of
              Some pairs \<Rightarrow> list_ex (\<lambda>p. lower (fst p) = ''user-agent'') pairs
            | None \<Rightarrow> False)
       | None \<Rightarrow> False)
      \<or> headers_has (input_headers_of action) ''user-agent'')"

definition init_field :: "(request_init \<Rightarrow> ctxval option) \<Rightarrow> http_action \<Rightarrow> ctxval option" where
  "init_field field action = (case init action of Some i \<Rightarrow> field i | None \<Rightarrow> None)"

definition context_value :: "http_action \<Rightarrow> string \<Rightarrow> ctxval option" where
  "context_value action key =
     (case context' action of None \<Rightarrow> None | Some ctx \<Rightarrow> ctx_get ctx key)"

text \<open>Calling \<open>runObservable\<close> on each actor of a list in turn.\<close>

fun run_actors ::
  "('a, 't, 'o, 's) init_actor list \<Rightarrow> 'a \<Rightarrow> 's \<Rightarrow> 'o promise list \<times> 's" where
  "run_actors [] action s = ([], s)"
| "run_actors (a # as) action s =
     (case runObservable a action s of
        (p, s1) \<Rightarrow> (case run_actors as action s1 of (ps, s2) \<Rightarrow> (p # ps, s2)))"

text \<open>Example entries and actors, for evaluating the model on concrete inputs.\<close>

definition example_entry :: bindings_output where
  "example_entry =
     \<lparr> otype = ''bindings'',
       bindingsStream = [[(''x'', NamedNode ''a'')], [(''x'', NamedNode ''c'')]],
       metadata = Some (Inr [(''totalItems'', JNum (Fin 2)), (''pageSize'', JNum (Fin 100))]),
       variables = [''x''] \<rparr>"

definition example_entry2 :: bindings_output where
  "example_entry2 =
     \<lparr> otype = ''bindings'',
       bindingsStream = [[(''y'', BlankNode ''b''), (''x'', NamedNode ''a'')]],
       metadata = Some (Inr [(''totalItems'', JNum (Fin 5))]),
       variables = [''y'', ''x''] \<rparr>"

definition example_entry_large :: bindings_output where
  "example_entry_large =
     \<lparr> otype = ''bindings'',
       bindingsStream = [],
       metadata = Some (Inr [(''totalItems'', JNum (Fin 94906267))]),
       variables = [''x''] \<rparr>"

definition example_getOutput :: "join_action \<Rightarrow> nat \<Rightarrow> bindings_output promise \<times> nat" where
  "example_getOutput action calls =
     (Inr \<lparr> otype = ''bindings'',
             bindingsStream =
               (case entries action of
                  l # r # rest \<Rightarrow> nestedLoopJoin (bindingsStream l) (bindingsStream r)
                | _ \<Rightarrow> []),
             metadata = Some (Inr [(''order'', JNum (Fin 7))]),
             variables = [''x'', ''y''] \<rparr>, Suc calls)"

definition example_actor :: "nat join_actor" where
  "example_actor =
     ActorRdfJoin ''at-least-two'' (Some (Fin 2)) (Some True) example_getOutput
       (\<lambda>action. Inr (Fin 6))"

definition example_actor_max :: "nat join_actor" where
  "example_actor_max =
     ActorRdfJoin ''at-most-two'' (Some (Fin 2)) None example_getOutput
       (\<lambda>action. Inr (Fin 6))"

definition example_response :: http_response where
  "example_response =
     \<lparr> statusCode = 200, responseUrl = ''http://ex/data'',
       response_headers = [(''content-type'', ''text/turtle''),
                           (''content-location'', ''http://ex/data.ttl'')] \<rparr>"

definition example_http_actor :: http_actor where
  "example_http_actor =
     \<lparr> userAgent = ''Comunica/actor-http-native'',
       createRequest = (\<lambda>options. Response example_response None) \<rparr>"

definition example_http_action :: http_action where
  "example_http_action =
     \<lparr> input = InputString ''http://ex/data'',
       init = Some \<lparr> init_method = None, init_headers = Some [(''Accept'', ''text/turtle'')],
                     init_body = None, init_withCredentials = None, init_auth = None \<rparr>,
       context' = Some [(KEY_CONTEXT_INCLUDE_CREDENTIALS, CBool True),
                        (KEY_CONTEXT_AUTH, CStr ''user:password'')] \<rparr>"

definition example_http_action_agent :: http_action where
  "example_http_action_agent =
     \<lparr> input = InputString ''http://ex/data'',
       init = Some \<lparr> init_method = Some ''POST'',
                     init_headers = Some [(''User-Agent'', ''caller-agent'')],
                     init_body = None, init_withCredentials = None,
                     init_auth = Some (CStr ''init:secret'') \<rparr>,
       context' = None \<rparr>"

definition example_http_action_init_credentials :: http_action where
  "example_http_action_init_credentials =
     \<lparr> input = InputString ''http://ex/data'',
       init = Some \<lparr> init_method = None, init_headers = None, init_body = None,
                     init_withCredentials = Some (CBool True), init_auth = None \<rparr>,
       context' = Some [(KEY_CONTEXT_AUTH, CStr [])] \<rparr>"

definition example_init_actor ::
  "string \<Rightarrow> nat promise \<Rightarrow> (unit, nat, string, string list) init_actor" where
  "example_init_actor nm t =
     \<lparr> actor_name = nm,
       actor_test = (\<lambda>action. t),
       runObservable = (\<lambda>action log. (Inr (''output of '' @ nm), log @ [nm])) \<rparr>"

definition example_bus :: "(unit, nat, string, string list) init_actor list" where
  "example_bus =
     [example_init_actor ''a'' (Inl (Rejected ''cannot handle'')),
      example_init_actor ''b'' (Inr 5),
      example_init_actor ''c'' (Inr 1)]"

section \<open>Properties of join\<close>

lemma map_of_snoc_other:
  "k' \<noteq> k \<Longrightarrow> map_of (acc @ [(k, r)]) k' = map_of acc k'"
  by (auto simp: map_add_def split: option.splits)

lemma filter_snoc_other:
  assumes "k \<notin> fst ` set val"
  shows "filter (\<lambda>(k', r'). map_of (acc @ [(k, r)]) k' = None) val
         = filter (\<lambda>(k', r'). map_of acc k' = None) val"
proof (rule filter_cong)
  fix x assume x: "x \<in> set val"
  obtain k' r' where e: "x = (k', r')" by (cases x)
  with x assms have "k' \<noteq> k" by force
  then have "map_of (acc @ [(k, r)]) k' = map_of acc k'" by (rule map_of_snoc_other)
  with e show "(case x of (k', r') \<Rightarrow> map_of (acc @ [(k, r)]) k' = None)
            = (case x of (k', r') \<Rightarrow> map_of acc k' = None)"
    by (simp del: map_of_append)
qed simp

lemma mergeWith_merger:
  "distinct (map fst val) \<Longrightarrow>
   mergeWith merger acc val =
     (if \<forall>(k, r) \<in> set val. \<forall>l. map_of acc k = Some l \<longrightarrow> l = r
      then Inr (acc @ filter (\<lambda>(k, r). map_of acc k = None) val)
      else Inl JoinFailure)"
proof (induction val arbitrary: acc)
  case Nil
  then show ?case by simp
next
  case (Cons p val)
  obtain k r where p: "p = (k, r)" by (cases p)
  from Cons.prems p have k: "k \<notin> fst ` set val" and d: "distinct (map fst val)" by auto
  show ?case
  proof (cases "map_of acc k")
    case None
    have c: "(\<forall>(k', r') \<in> set val. \<forall>l. map_of (acc @ [(k, r)]) k' = Some l \<longrightarrow> l = r')
             = (\<forall>(k', r') \<in> set val. \<forall>l. map_of acc k' = Some l \<longrightarrow> l = r')"
    proof (rule ball_cong)
      fix x assume x: "x \<in> set val"
      obtain k' r' where e: "x = (k', r')" by (cases x)
      with x k have "k' \<noteq> k" by force
      then have "map_of (acc @ [(k, r)]) k' = map_of acc k'" by (rule map_of_snoc_other)
      with e show "(case x of (k', r') \<Rightarrow> \<forall>l. map_of (acc @ [(k, r)]) k' = Some l \<longrightarrow> l = r')
            = (case x of (k', r') \<Rightarrow> \<forall>l. map_of acc k' = Some l \<longrightarrow> l = r')"
        by (simp del: map_of_append)
    qed simp
    have "mergeWith merger acc (p # val) = mergeWith merger (acc @ [(k, r)]) val"
      using None p by simp
    also have "\<dots> = (if \<forall>(k', r') \<in> set val. \<forall>l. map_of acc k' = Some l \<longrightarrow> l = r'
      then Inr ((acc @ [(k, r)]) @ filter (\<lambda>(k', r'). map_of acc k' = None) val)
      else Inl JoinFailure)"
      unfolding Cons.IH[OF d, of "acc @ [(k, r)]"] c filter_snoc_other[OF k] ..
    also have "\<dots> = (if \<forall>(k', r') \<in> set (p # val). \<forall>l. map_of acc k' = Some l \<longrightarrow> l = r'
      then Inr (acc @ filter (\<lambda>(k', r'). map_of acc k' = None) (p # val))
      else Inl JoinFailure)"
      using None p by simp
    finally show ?thesis .
  next
    case (Some l)
    show ?thesis
    proof (cases "l = r")
      case True
      have u: "AList.update k l acc = acc" using Some by (simp add: update_triv)
      show ?thesis using Some True p u Cons.IH[OF d, of acc]
        by (auto simp: merger_def equals_def)
    next
      case False
      then show ?thesis using Some p by (auto simp: merger_def equals_def)
    qed
  qed
qed


lemma ball_shared_equal:
  "distinct (map fst b) \<Longrightarrow>
   (\<forall>(k, r) \<in> set b. \<forall>l. map_of a k = Some l \<longrightarrow> l = r) = shared_equal a b"
  unfolding shared_equal_def
  by (auto dest: map_of_SomeD) 

lemma join_pair:
  assumes "wf_bindings b"
  shows "join [a, b] =
     (if shared_equal a b then Some (a @ filter (\<lambda>(k, r). map_of a k = None) b) else None)"
  using assms mergeWith_merger[of b a] ball_shared_equal[of b a]
  by (simp add: join_def join_try_def wf_bindings_def)

lemma shared_equal_sym: "shared_equal a b = shared_equal b a"
  unfolding shared_equal_def by metis

lemma map_of_union:
  "map_of (a @ filter (\<lambda>(k, r). map_of a k = None) b) = map_of b ++ map_of a"
proof
  fix k
  show "map_of (a @ filter (\<lambda>(k, r). map_of a k = None) b) k = (map_of b ++ map_of a) k"
  proof (cases "map_of a k")
    case None
    have "map_of (filter (\<lambda>(k, r). map_of a k = None) b) k = map_of b k"
      using None by (induction b) auto
    then show ?thesis using None by (simp add: map_add_def)
  next
    case (Some l)
    then show ?thesis by (simp add: map_add_def)
  qed
qed

lemma map_add_shared_equal:
  assumes "shared_equal a b"
  shows "map_of b ++ map_of a = map_of a ++ map_of b"
proof
  fix k
  show "(map_of b ++ map_of a) k = (map_of a ++ map_of b) k"
    using assms unfolding shared_equal_def
    by (cases "map_of a k"; cases "map_of b k") (auto simp: map_add_def)
qed

lemma distinct_union:
  assumes "distinct (map fst a)" "distinct (map fst b)"
  shows "distinct (map fst (a @ filter (\<lambda>(k, r). map_of a k = None) b))"
proof -
  have "fst ` set a \<inter> fst ` set (filter (\<lambda>(k, r). map_of a k = None) b) = {}"
    by (force simp: map_of_eq_None_iff)
  moreover have "distinct (map fst (filter (\<lambda>(k, r). map_of a k = None) b))"
    using assms(2) by (simp add: distinct_map_filter)
  ultimately show ?thesis using assms(1) by simp
qed

lemma set_union:
  assumes "distinct (map fst a)" "distinct (map fst b)" "shared_equal a b"
  shows "set (a @ filter (\<lambda>(k, r). map_of a k = None) b) = set a \<union> set b"
proof -
  have "\<And>k r. (k, r) \<in> set b \<Longrightarrow> map_of a k \<noteq> None \<Longrightarrow> (k, r) \<in> set a"
  proof -
    fix k r assume b: "(k, r) \<in> set b" and "map_of a k \<noteq> None"
    then obtain l where l: "map_of a k = Some l" by auto
    from b assms(2) have "map_of b k = Some r" by simp
    with l assms(3) have "l = r" unfolding shared_equal_def by blast
    with l show "(k, r) \<in> set a" by (auto dest: map_of_SomeD)
  qed
  then show ?thesis by force
qed


lemma joined_sym:
  assumes "wf_bindings a" "wf_bindings b"
  shows "joined a b = joined b a"
proof (cases "shared_equal a b")
  case True
  then have "shared_equal b a" by (simp add: shared_equal_sym)
  with True assms show ?thesis
    by (simp add: joined_def join_pair map_of_union map_add_shared_equal[of a b] del: map_of_append)
next
  case False
  then have "\<not> shared_equal b a" by (simp add: shared_equal_sym)
  with False assms show ?thesis by (simp add: joined_def join_pair)
qed

lemma mset_nestedLoop_right:
  "image_mset map_of (mset (nestedLoop_right l rs)) = (\<Sum>r \<in># mset rs. joined l r)"
  by (induction rs) (auto simp: joined_def split: option.splits)

lemma mset_nestedLoopJoin:
  "image_mset map_of (mset (nestedLoopJoin ls rs)) = (\<Sum>l \<in># mset ls. \<Sum>r \<in># mset rs. joined l r)"
  by (induction ls) (auto simp: mset_nestedLoop_right)

lemma nestedLoopJoin_sym:
  assumes "\<forall>a \<in> set A. wf_bindings a" "\<forall>b \<in> set B. wf_bindings b"
  shows "image_mset map_of (mset (nestedLoopJoin A B)) = image_mset map_of (mset (nestedLoopJoin B A))"
proof -
  have "(\<Sum>l \<in># mset A. \<Sum>r \<in># mset B. joined l r) = (\<Sum>l \<in># mset A. \<Sum>r \<in># mset B. joined r l)"
    using assms by (intro arg_cong[where f = sum_mset] image_mset_cong) (simp add: joined_sym)
  also have "\<dots> = (\<Sum>r \<in># mset B. \<Sum>l \<in># mset A. joined r l)"
    by (rule sum_mset.swap)
  finally show ?thesis by (simp add: mset_nestedLoopJoin)
qed

text \<open>
  Claim C3. For every pair of (well-formed) bindings, \<open>ActorRdfJoin.join\<close> returns their
  union when every variable present in both is mapped to equal terms, and \<open>null\<close> (here
  \<open>None\<close>) when some shared variable is mapped to unequal terms. The result is a value in
  both cases: nothing is thrown to the caller.
\<close>

theorem join_merges_compatible:
  assumes "wf_bindings a" and "wf_bindings b"
  shows "if \<forall>k l r. map_of a k = Some l \<longrightarrow> map_of b k = Some r \<longrightarrow> l = r
         then \<exists>u. join [a, b] = Some u \<and> wf_bindings u
                \<and> set u = set a \<union> set b \<and> map_of u = map_of a ++ map_of b
         else join [a, b] = None"
  using assms join_pair[OF assms(2), of a]
    distinct_union[of a b] set_union[of a b] map_of_union[of a b] map_add_shared_equal[of a b]
  unfolding wf_bindings_def shared_equal_def[symmetric]
  by (cases "shared_equal a b") simp_all

theorem join_merges_compatible_witness:
  "join [[(''x'', NamedNode ''a''), (''y'', BlankNode ''b'')],
         [(''z'', DefaultGraph), (''x'', NamedNode ''a'')]]
     = Some [(''x'', NamedNode ''a''), (''y'', BlankNode ''b''), (''z'', DefaultGraph)]
   \<and> join [[(''x'', NamedNode ''a'')], [(''x'', NamedNode ''c'')]] = None"
  using join_merges_compatible[of "[(''x'', NamedNode ''a''), (''y'', BlankNode ''b'')]"
         "[(''z'', DefaultGraph), (''x'', NamedNode ''a'')]"]
    join_merges_compatible[of "[(''x'', NamedNode ''a'')]" "[(''x'', NamedNode ''c'')]"]
  by (simp add: wf_bindings_def join_def join_try_def merger_def equals_def)

text \<open>
  Claim C2. Joining commutes: \<open>join(a, b)\<close> succeeds exactly when \<open>join(b, a)\<close> does and
  both results map the same variables to the same terms; and the multiset of bindings (as
  finite maps) that the nested-loop join emits for the entries \<open>[A, B]\<close> equals the one it
  emits for \<open>[B, A]\<close>.
\<close>

theorem join_commutes:
  assumes "wf_bindings a" and "wf_bindings b"
    and "\<forall>x \<in> set A. wf_bindings x" and "\<forall>y \<in> set B. wf_bindings y"
  shows "(join [a, b] = None \<longleftrightarrow> join [b, a] = None)
       \<and> (\<forall>u v. join [a, b] = Some u \<longrightarrow> join [b, a] = Some v \<longrightarrow> map_of u = map_of v)
       \<and> image_mset map_of (mset (nestedLoopJoin A B))
           = image_mset map_of (mset (nestedLoopJoin B A))"
proof -
  have "joined a b = joined b a" using assms(1,2) by (rule joined_sym)
  then have "(join [a, b] = None \<longleftrightarrow> join [b, a] = None)
       \<and> (\<forall>u v. join [a, b] = Some u \<longrightarrow> join [b, a] = Some v \<longrightarrow> map_of u = map_of v)"
    by (auto simp: joined_def split: option.splits)
  with nestedLoopJoin_sym[OF assms(3,4)] show ?thesis by simp
qed

theorem join_commutes_witness:
  "image_mset map_of (mset (nestedLoopJoin
       [[(''x'', NamedNode ''a'')], [(''x'', NamedNode ''c'')]]
       [[(''y'', BlankNode ''b''), (''x'', NamedNode ''a'')]]))
   = image_mset map_of (mset (nestedLoopJoin
       [[(''y'', BlankNode ''b''), (''x'', NamedNode ''a'')]]
       [[(''x'', NamedNode ''a'')], [(''x'', NamedNode ''c'')]]))
   \<and> nestedLoopJoin [[(''x'', NamedNode ''a'')], [(''x'', NamedNode ''c'')]]
         [[(''y'', BlankNode ''b''), (''x'', NamedNode ''a'')]]
       = [[(''x'', NamedNode ''a''), (''y'', BlankNode ''b'')]]
   \<and> nestedLoopJoin [[(''y'', BlankNode ''b''), (''x'', NamedNode ''a'')]]
         [[(''x'', NamedNode ''a'')], [(''x'', NamedNode ''c'')]]
       = [[(''y'', BlankNode ''b''), (''x'', NamedNode ''a'')]]
   \<and> (join [[(''x'', NamedNode ''c'')], [(''y'', BlankNode ''b''), (''x'', NamedNode ''a'')]] = None
        \<longleftrightarrow> join [[(''y'', BlankNode ''b''), (''x'', NamedNode ''a'')], [(''x'', NamedNode ''c'')]] = None)"
proof -
  have wf: "wf_bindings [(''x'', NamedNode ''c'')]"
    "wf_bindings [(''y'', BlankNode ''b''), (''x'', NamedNode ''a'')]"
    "\<forall>x \<in> set [[(''x'', NamedNode ''a'')], [(''x'', NamedNode ''c'')]]. wf_bindings x"
    "\<forall>y \<in> set [[(''y'', BlankNode ''b''), (''x'', NamedNode ''a'')]]. wf_bindings y"
    by (simp_all add: wf_bindings_def)
  have run: "nestedLoopJoin [[(''x'', NamedNode ''a'')], [(''x'', NamedNode ''c'')]]
         [[(''y'', BlankNode ''b''), (''x'', NamedNode ''a'')]]
       = [[(''x'', NamedNode ''a''), (''y'', BlankNode ''b'')]]"
    "nestedLoopJoin [[(''y'', BlankNode ''b''), (''x'', NamedNode ''a'')]]
         [[(''x'', NamedNode ''a'')], [(''x'', NamedNode ''c'')]]
       = [[(''y'', BlankNode ''b''), (''x'', NamedNode ''a'')]]"
    by (simp_all add: join_def join_try_def merger_def equals_def)
  from join_commutes[OF wf] run show ?thesis by blast
qed

section \<open>Properties of ActorRdfJoin.run and test\<close>

lemma round_double_exact: "\<bar>n\<bar> \<le> exact_limit \<Longrightarrow> round_double n = Fin n"
  by (simp add: round_double_def)

lemma foldl_js_times_exact:
  "\<forall>k \<le> length ns. \<bar>a * prod_list (take k ns)\<bar> \<le> exact_limit \<Longrightarrow>
   foldl js_times (Fin a) (map Fin ns) = Fin (a * prod_list ns)"
proof (induction ns arbitrary: a)
  case Nil
  then show ?case by simp
next
  case (Cons n ns)
  have one: "\<bar>a * n\<bar> \<le> exact_limit"
    using Cons.prems[rule_format, of 1] by simp
  have rest: "\<forall>k \<le> length ns. \<bar>(a * n) * prod_list (take k ns)\<bar> \<le> exact_limit"
  proof (intro allI impI)
    fix k assume "k \<le> length ns"
    then show "\<bar>(a * n) * prod_list (take k ns)\<bar> \<le> exact_limit"
      using Cons.prems[rule_format, of "Suc k"] by (simp add: mult.assoc)
  qed
  show ?case
    using Cons.IH[OF rest] one by (simp add: round_double_exact mult.assoc)
qed

lemma round_double_large: "round_double 9007199515875289 = Fin 9007199515875288"
  by code_simp

text \<open>
  Claim C1. With 0 entries \<open>run\<close> returns the empty bindings stream with variables \<open>[]\<close>
  and metadata \<open>totalItems = 0\<close>; with exactly 1 entry it returns that entry as it is. In
  both cases the state is the one it started from, for every \<open>getOutput\<close>: the method of the
  subclass is not invoked.
\<close>

theorem run_zero_or_one_entry:
  "(entries action = [] \<longrightarrow>
      ActorRdfJoin_run actor action s =
        (Inr \<lparr> otype = ''bindings'', bindingsStream = [],
                metadata = Some (Inr [(''totalItems'', JNum (Fin 0))]),
                variables = [] \<rparr>, s))
   \<and> (\<forall>entry. entries action = [entry] \<longrightarrow> ActorRdfJoin_run actor action s = (Inr entry, s))"
  by (simp add: ActorRdfJoin_run_def)

theorem run_zero_or_one_entry_witness:
  "ActorRdfJoin_run example_actor \<lparr>entries = []\<rparr> 0 =
        (Inr \<lparr> otype = ''bindings'', bindingsStream = [],
                metadata = Some (Inr [(''totalItems'', JNum (Fin 0))]),
                variables = [] \<rparr>, 0)
   \<and> ActorRdfJoin_run example_actor \<lparr>entries = [example_entry]\<rparr> 0 = (Inr example_entry, 0)
   \<and> snd (ActorRdfJoin_run example_actor \<lparr>entries = [example_entry, example_entry2]\<rparr> 0) = 1"
  using run_zero_or_one_entry[of "\<lparr>entries = []\<rparr>" example_actor 0]
    run_zero_or_one_entry[of "\<lparr>entries = [example_entry]\<rparr>" example_actor 0]
  by (simp add: ActorRdfJoin_run_def example_actor_def ActorRdfJoin_def example_getOutput_def
      split: prod.splits)

lemma promise_all_Inr:
  "\<forall>p \<in> set ps. \<exists>v. p = Inr v \<Longrightarrow> promise_all ps = Inr (map projr ps)"
  by (induction ps) auto

lemma iteratorsHaveMetadata_iff:
  "iteratorsHaveMetadata action key =
     (\<forall>entry \<in> set (entries action). \<exists>m. metadata entry = Some (Inr m) \<and> has_key key m)"
proof -
  have "\<And>es. (case promise_all (map (entry_has_metadata key) es) of Inl e \<Rightarrow> False | Inr u \<Rightarrow> True)
        = (\<forall>entry \<in> set es. \<exists>m. metadata entry = Some (Inr m) \<and> has_key key m)"
  proof -
    fix es show "?thesis es"
      by (induction es)
         (auto simp: entry_has_metadata_def split: option.splits sum.splits if_splits)
  qed
  then show ?thesis by (simp add: iteratorsHaveMetadata_def)
qed

lemma totalItems_product:
  assumes "\<forall>entry \<in> set (entries action). \<exists>m. metadata entry = Some (Inr m)"
  shows "totalItems action
           = Inr (foldl js_times (Fin 1) (map entry_totalItems (entries action)))"
proof -
  let ?f = "\<lambda>entry. case metadata entry of None \<Rightarrow> Inl TypeError | Some p \<Rightarrow> p"
  have a: "\<forall>p \<in> set (map ?f (entries action)). \<exists>v. p = Inr v"
    using assms by auto
  have b: "map (\<lambda>val. ToNumber (get_prop val ''totalItems'')) (map projr (map ?f (entries action)))
           = map entry_totalItems (entries action)"
    using assms by (auto simp: entry_totalItems_def)
  have "foldl (\<lambda>acc val. js_times acc (ToNumber (get_prop val ''totalItems''))) (Fin 1)
          (map projr (map ?f (entries action)))
        = foldl js_times (Fin 1) (map entry_totalItems (entries action))"
    unfolding b[symmetric] by (simp add: foldl_map)
  then show ?thesis
    unfolding totalItems_def promise_all_Inr[OF a] by simp
qed

lemma get_prop_set_prop: "get_prop (set_prop m key v) key = v"
  by (simp add: get_prop_def set_prop_def update_conv')

lemma map_of_set_prop_other: "k \<noteq> key \<Longrightarrow> map_of (set_prop m key v) k = map_of m k"
  by (simp add: set_prop_def update_conv')

text \<open>
  Claim C4, as amended. For an action with at least 2 entries whose metadata all resolve
  and contain \<open>totalItems\<close>, and an output \<open>out\<close> of the subclass, \<open>run\<close> returns \<open>out\<close> with a
  new metadata thunk. It reports the number \<open>P\<close> that multiplying the entries' \<open>totalItems\<close>
  values from left to right gives in double arithmetic: the product of the values when they
  are integers and no running product exceeds \<open>2^53\<close> in magnitude. When the metadata of
  \<open>out\<close> already has a \<open>totalItems\<close> key it is kept unchanged. The other keys of the metadata
  of \<open>out\<close> are kept, and a rejection of it is passed on.
\<close>

theorem run_totalItems_product:
  assumes "2 \<le> length (entries action)"
    and "\<forall>entry \<in> set (entries action).
           \<exists>m. metadata entry = Some (Inr m) \<and> has_key ''totalItems'' m"
    and "getOutput actor action s = (Inr out, s')"
  shows "\<exists>mp P. ActorRdfJoin_run actor action s = (Inr (out\<lparr>metadata := Some mp\<rparr>), s')
     \<and> P = foldl js_times (Fin 1) (map entry_totalItems (entries action))
     \<and> (\<forall>ns. map entry_totalItems (entries action) = map Fin ns
              \<and> (\<forall>k \<le> length ns. \<bar>prod_list (take k ns)\<bar> \<le> 2 ^ 53)
            \<longrightarrow> P = Fin (prod_list ns))
     \<and> (case metadata out of
          None \<Rightarrow> mp = Inr [(''totalItems'', JNum P)]
        | Some (Inl e) \<Rightarrow> mp = Inl e
        | Some (Inr m) \<Rightarrow>
            if has_key ''totalItems'' m then mp = Inr m
            else \<exists>m'. mp = Inr m'
                   \<and> get_prop m' ''totalItems'' = JNum P
                   \<and> (\<forall>k. k \<noteq> ''totalItems'' \<longrightarrow> map_of m' k = map_of m k))"
proof -
  let ?P = "foldl js_times (Fin 1) (map entry_totalItems (entries action))"
  have have_md: "iteratorsHaveMetadata action ''totalItems''"
    using assms(2) by (simp add: iteratorsHaveMetadata_iff)
  have ti: "totalItems action = Inr ?P"
    using assms(2) by (intro totalItems_product) blast
  have run: "ActorRdfJoin_run actor action s
      = (Inr (out\<lparr>metadata := Some (updated_metadata action (metadata out))\<rparr>), s')"
  proof -
    from assms(1) have "entries action \<noteq> []" and "length (entries action) \<noteq> Suc 0"
      by auto
    with assms(3) have_md show ?thesis by (simp add: ActorRdfJoin_run_def)
  qed
  have exact: "\<forall>ns. map entry_totalItems (entries action) = map Fin ns
              \<and> (\<forall>k \<le> length ns. \<bar>prod_list (take k ns)\<bar> \<le> 2 ^ 53)
            \<longrightarrow> ?P = Fin (prod_list ns)"
  proof (intro allI impI)
    fix ns
    assume h: "map entry_totalItems (entries action) = map Fin ns
              \<and> (\<forall>k \<le> length ns. \<bar>prod_list (take k ns)\<bar> \<le> 2 ^ 53)"
    then have "\<forall>k \<le> length ns. \<bar>1 * prod_list (take k ns)\<bar> \<le> exact_limit"
      by (simp add: exact_limit_def)
    from foldl_js_times_exact[OF this] h show "?P = Fin (prod_list ns)" by simp
  qed
  have "case metadata out of
          None \<Rightarrow> updated_metadata action (metadata out) = Inr [(''totalItems'', JNum ?P)]
        | Some (Inl e) \<Rightarrow> updated_metadata action (metadata out) = Inl e
        | Some (Inr m) \<Rightarrow>
            if has_key ''totalItems'' m then updated_metadata action (metadata out) = Inr m
            else \<exists>m'. updated_metadata action (metadata out) = Inr m'
                   \<and> get_prop m' ''totalItems'' = JNum ?P
                   \<and> (\<forall>k. k \<noteq> ''totalItems'' \<longrightarrow> map_of m' k = map_of m k)"
    by (simp add: updated_metadata_def ti get_prop_set_prop map_of_set_prop_other
        split: option.splits sum.splits)
  with run exact show ?thesis by blast
qed

theorem run_totalItems_product_witness:
  "\<exists>out' m'. ActorRdfJoin_run example_actor \<lparr>entries = [example_entry, example_entry2]\<rparr> 0
                 = (Inr out', 1)
     \<and> metadata out' = Some (Inr m')
     \<and> get_prop m' ''totalItems'' = JNum (Fin 10)
     \<and> map_of m' ''order'' = Some (JNum (Fin 7))"
proof -
  let ?action = "\<lparr>entries = [example_entry, example_entry2]\<rparr>"
  let ?out = "\<lparr> otype = ''bindings'',
               bindingsStream = [[(''x'', NamedNode ''a''), (''y'', BlankNode ''b'')]],
               metadata = Some (Inr [(''order'', JNum (Fin 7))]),
               variables = [''x'', ''y''] \<rparr>"
  have le: "2 \<le> length (entries ?action)"
    by simp
  have md: "\<forall>entry \<in> set (entries ?action).
           \<exists>m. metadata entry = Some (Inr m) \<and> has_key ''totalItems'' m"
    by (simp add: example_entry_def example_entry2_def has_key_def)
  have out: "getOutput example_actor ?action 0 = (Inr ?out, 1)"
    by (simp add: example_actor_def ActorRdfJoin_def example_getOutput_def example_entry_def
        example_entry2_def join_def join_try_def merger_def equals_def)
  have totals: "map entry_totalItems (entries ?action) = map Fin [2, 5]"
    by (simp add: entry_totalItems_def example_entry_def example_entry2_def get_prop_def)
  have prefixes: "\<forall>k \<le> length [2, 5 :: int]. \<bar>prod_list (take k [2, 5 :: int])\<bar> \<le> 2 ^ 53"
  proof (intro allI impI)
    fix k :: nat assume "k \<le> length [2, 5 :: int]"
    then have "k = 0 \<or> k = 1 \<or> k = 2" by auto
    then show "\<bar>prod_list (take k [2, 5 :: int])\<bar> \<le> 2 ^ 53" by auto
  qed
  from run_totalItems_product[OF le md out]
  obtain mp P where
    r: "ActorRdfJoin_run example_actor ?action 0 = (Inr (?out\<lparr>metadata := Some mp\<rparr>), 1)"
    and ex: "\<forall>ns. map entry_totalItems (entries ?action) = map Fin ns
              \<and> (\<forall>k \<le> length ns. \<bar>prod_list (take k ns)\<bar> \<le> 2 ^ 53)
            \<longrightarrow> P = Fin (prod_list ns)"
    and c: "case metadata ?out of
          None \<Rightarrow> mp = Inr [(''totalItems'', JNum P)]
        | Some (Inl e) \<Rightarrow> mp = Inl e
        | Some (Inr m) \<Rightarrow>
            if has_key ''totalItems'' m then mp = Inr m
            else \<exists>m'. mp = Inr m'
                   \<and> get_prop m' ''totalItems'' = JNum P
                   \<and> (\<forall>k. k \<noteq> ''totalItems'' \<longrightarrow> map_of m' k = map_of m k)"
    by blast
  from ex totals prefixes have "P = Fin (prod_list [2, 5])" by blast
  then have P: "P = Fin 10" by simp
  from c obtain m' where m': "mp = Inr m'" "get_prop m' ''totalItems'' = JNum P"
    "\<forall>k. k \<noteq> ''totalItems'' \<longrightarrow> map_of m' k = map_of [(''order'', JNum (Fin 7))] k"
    by (auto simp: has_key_def)
  from m'(3) have "map_of m' ''order'' = Some (JNum (Fin 7))" by simp
  with r m'(1,2) P show ?thesis by simp
qed

text \<open>
  The claim as stated fails where the product is not a double: for two entries of
  94906267 items each the metadata reports 9007199515875288, and the product is
  9007199515875289.
\<close>

theorem run_totalItems_product_counterexample:
  "ActorRdfJoin_run example_actor \<lparr>entries = [example_entry_large, example_entry_large]\<rparr> 0
     = (Inr \<lparr> otype = ''bindings'',
               bindingsStream = [],
               metadata = Some (Inr [(''order'', JNum (Fin 7)),
                                     (''totalItems'', JNum (Fin 9007199515875288))]),
               variables = [''x'', ''y''] \<rparr>, 1)
   \<and> (94906267 :: int) * 94906267 = 9007199515875289"
  by (simp add: example_actor_def ActorRdfJoin_def example_getOutput_def example_entry_large_def
      has_key_def get_prop_def set_prop_def ActorRdfJoin_run_def
      iteratorsHaveMetadata_def entry_has_metadata_def updated_metadata_def totalItems_def
      round_double_exact exact_limit_def round_double_large)

lemma minimum_iterations_mem: "minimum_iterations rs = Some r \<Longrightarrow> r \<in> set rs"
  by (induction rs arbitrary: r) (auto split: option.splits if_splits)

lemma passed_tests_mem:
  "(a, iterations) \<in> set (passed_tests bus action) \<Longrightarrow> ActorRdfJoin_test a action = Inr iterations"
  by (induction bus) (auto split: sum.splits)

lemma mediate_winner_passed:
  assumes "mediate_winner bus action = Some a"
  shows "\<exists>iterations. ActorRdfJoin_test a action = Inr iterations"
proof -
  from assms obtain r where r: "minimum_iterations (passed_tests bus action) = Some r" "fst r = a"
    by (auto simp: mediate_winner_def)
  from r(2) have "r = (a, snd r)" by (cases r) simp
  with minimum_iterations_mem[OF r(1)] have "(a, snd r) \<in> set (passed_tests bus action)"
    by simp
  from passed_tests_mem[OF this] show ?thesis by blast
qed

text \<open>
  Claim C7, as amended. For every join actor with a declared limit \<open>k\<close> and every action
  with at least 2 entries whose number of entries violates it (fewer than \<open>k\<close> under a lower
  limit, more than \<open>k\<close> under an upper limit), \<open>test\<close> throws, so the action is rejected at
  test time and the mediator of no bus makes that actor the winner whose \<open>run\<close> it invokes.
  With 0 or 1 entries \<open>test\<close> returns 0 iterations before it looks at the limit.
\<close>

theorem test_limit_violation:
  "(2 \<le> length (entries action) \<and> limitEntries actor = Fin k
      \<and> (if limitEntriesMin actor then int (length (entries action)) < k
          else k < int (length (entries action)))
      \<longrightarrow> ActorRdfJoin_test actor action
            = Inl (RequiresSources (name actor) (Fin k) (limitEntriesMin actor)
                     (length (entries action)))
          \<and> (\<forall>bus. mediate_winner bus action \<noteq> Some actor))
   \<and> (length (entries action) \<le> 1 \<longrightarrow> ActorRdfJoin_test actor action = Inr (Fin 0))"
proof -
  have "ActorRdfJoin_test actor action
            = Inl (RequiresSources (name actor) (Fin k) (limitEntriesMin actor)
                     (length (entries action)))
          \<and> (\<forall>bus. mediate_winner bus action \<noteq> Some actor)"
    if h: "2 \<le> length (entries action)" "limitEntries actor = Fin k"
      "if limitEntriesMin actor then int (length (entries action)) < k
          else k < int (length (entries action))"
  proof -
    from h have t: "ActorRdfJoin_test actor action
            = Inl (RequiresSources (name actor) (Fin k) (limitEntriesMin actor)
                     (length (entries action)))"
      by (simp add: ActorRdfJoin_test_def violates_limit_def split: if_splits)
    then have "\<forall>bus. mediate_winner bus action \<noteq> Some actor"
      using mediate_winner_passed[of _ action actor] by auto
    with t show ?thesis by simp
  qed
  then show ?thesis by (simp add: ActorRdfJoin_test_def)
qed

theorem test_limit_violation_witness:
  "ActorRdfJoin_test example_actor_max \<lparr>entries = [example_entry, example_entry2, example_entry]\<rparr>
     = Inl (RequiresSources ''at-most-two'' (Fin 2) False 3)
   \<and> mediate_winner [example_actor_max]
         \<lparr>entries = [example_entry, example_entry2, example_entry]\<rparr> \<noteq> Some example_actor_max
   \<and> ActorRdfJoin_test example_actor \<lparr>entries = []\<rparr> = Inr (Fin 0)"
  using test_limit_violation[of "\<lparr>entries = [example_entry, example_entry2, example_entry]\<rparr>"
      example_actor_max 2]
    test_limit_violation[of "\<lparr>entries = []\<rparr>" example_actor 2]
  by (simp add: example_actor_max_def example_actor_def ActorRdfJoin_def)

text \<open>
  The claim as stated fails for 0 or 1 entries: an actor that needs at least 2 sources
  passes the test of an action with a single entry, the mediator makes it the winner and
  its \<open>run\<close> returns the entry.
\<close>

theorem test_limit_violation_counterexample:
  "limitEntries example_actor = Fin 2
   \<and> limitEntriesMin example_actor
   \<and> int (length (entries \<lparr>entries = [example_entry]\<rparr>)) < 2
   \<and> ActorRdfJoin_test example_actor \<lparr>entries = [example_entry]\<rparr> = Inr (Fin 0)
   \<and> mediate_winner [example_actor] \<lparr>entries = [example_entry]\<rparr> = Some example_actor
   \<and> mediate [example_actor] \<lparr>entries = [example_entry]\<rparr> 0 = (Inr example_entry, 0)"
  by (simp add: example_actor_def ActorRdfJoin_def ActorRdfJoin_test_def mediate_winner_def
      mediate_def ActorRdfJoin_run_def)

section \<open>Properties of ActorQueryOperationSlice\<close>

lemma transform_read_limit: "transform_read off (Some n) xs = take n (drop off xs)"
proof (induction xs arbitrary: off n)
  case Nil
  then show ?case by simp
next
  case (Cons x xs)
  show ?case
  proof (cases off)
    case 0
    then show ?thesis using Cons.IH[of 0 "n - 1"] by (cases n) simp_all
  next
    case (Suc k)
    then show ?thesis using Cons.IH[of k n] by (cases n) simp_all
  qed
qed

lemma transform_read_unlimited: "transform_read off None xs = drop off xs"
proof (induction xs arbitrary: off)
  case Nil
  then show ?case by simp
next
  case (Cons x xs)
  then show ?case by (cases off) simp_all
qed

lemma js_plus_exact: "\<bar>a + b\<bar> \<le> exact_limit \<Longrightarrow> js_plus (Fin a) (Fin b) = Fin (a + b)"
  by (simp add: round_double_exact)

lemma js_minus_exact: "\<bar>a - b\<bar> \<le> exact_limit \<Longrightarrow> js_minus (Fin a) (Fin b) = Fin (a - b)"
  by (simp add: js_minus_def round_double_exact)

lemma slice_limit_present:
  assumes "safe_integer l" and "safe_integer (s + l)"
  shows "Math_max (js_plus (js_minus (js_minus (js_plus (Fin s) (Fin l)) (Fin 1)) (Fin s)) (Fin 1))
           (Fin 0) = Fin (max l 0)"
proof -
  from assms have b: "\<bar>s + l\<bar> \<le> exact_limit" "\<bar>s + l - 1\<bar> \<le> exact_limit"
    "\<bar>s + l - 1 - s\<bar> \<le> exact_limit" "\<bar>s + l - 1 - s + 1\<bar> \<le> exact_limit"
    by (simp_all add: safe_integer_def)
  have "js_plus (js_minus (js_minus (js_plus (Fin s) (Fin l)) (Fin 1)) (Fin s)) (Fin 1)
          = Fin (s + l - 1 - s + 1)"
    by (simp only: js_plus_exact[OF b(1)] js_minus_exact[OF b(2)] js_minus_exact[OF b(3)]
        js_plus_exact[OF b(4)])
  then show ?thesis by (simp add: Math_max_def)
qed

lemma slice_limit_absent:
  "Math_max (js_plus (js_minus PosInf (Fin s)) (Fin 1)) (Fin 0) = PosInf"
  by (simp add: js_minus_def Math_max_def)

lemma nat_max_zero: "nat (max l 0) = nat l"
  by (simp add: max_def)

lemma sliceStream_present:
  assumes "safe_integer l" and "safe_integer (s + l)"
  shows "sliceStream xs \<lparr>start = s, length' = Some l\<rparr> = take (nat l) (drop (nat s) xs)"
  by (simp add: sliceStream_def hasLength_def Let_def slice_limit_present[OF assms]
      transform_def transform_read_limit nat_max_zero del: js_plus.simps)

lemma sliceStream_absent:
  "sliceStream xs \<lparr>start = s, length' = None\<rparr> = drop (nat s) xs"
  by (simp add: sliceStream_def Let_def slice_limit_absent transform_def
      transform_read_unlimited nat_max_zero del: js_plus.simps)

lemma sliceStream_drop_take:
  assumes "\<forall>l. length' pattern = Some l \<longrightarrow> safe_integer l \<and> safe_integer (start pattern + l)"
  shows "sliceStream xs pattern =
           (case length' pattern of
              Some l \<Rightarrow> take (nat l) (drop (nat (start pattern)) xs)
            | None \<Rightarrow> drop (nat (start pattern)) xs)"
proof (cases "length' pattern")
  case None
  then have "pattern = \<lparr>start = start pattern, length' = None\<rparr>" by simp
  then have "sliceStream xs pattern = drop (nat (start pattern)) xs"
    using sliceStream_absent[of xs "start pattern"] by simp
  with None show ?thesis by simp
next
  case (Some l)
  then have "pattern = \<lparr>start = start pattern, length' = Some l\<rparr>" by simp
  moreover from Some assms have "safe_integer l" and "safe_integer (start pattern + l)"
    by simp_all
  ultimately have "sliceStream xs pattern = take (nat l) (drop (nat (start pattern)) xs)"
    using sliceStream_present[of l "start pattern" xs] by simp
  with Some show ?thesis by simp
qed

text \<open>
  Claim C6. For a Slice node whose \<open>start\<close>, \<open>length\<close> and \<open>start + length\<close> are safe
  integers, and an input that the mediator resolved to a bindings or quads output, the slice
  actor returns an output of the same type, with the sliced metadata, whose stream is what
  \<open>sliceStream\<close> makes of the input stream: the input without its first \<open>start\<close> elements,
  cut to at most \<open>length\<close> elements when a length is present, in the order of the input.
\<close>

theorem runOperation_slices:
  assumes "stream_type output = ''bindings'' \<or> stream_type output = ''quads''"
    and "safe_integer (start pattern)"
    and "\<forall>l. length' pattern = Some l \<longrightarrow> safe_integer l \<and> safe_integer (start pattern + l)"
  shows "\<exists>out. runOperation (Inr output) pattern = Inr out
           \<and> stream_type out = stream_type output
           \<and> stream_metadata out = sliceMetadata (stream_metadata output) pattern
           \<and> stream_items out = sliceStream (stream_items output) pattern
           \<and> stream_items out =
               (case length' pattern of
                  Some l \<Rightarrow> take (nat l) (drop (nat (start pattern)) (stream_items output))
                | None \<Rightarrow> drop (nat (start pattern)) (stream_items output))"
  using assms(1) sliceStream_drop_take[OF assms(3), of "stream_items output"]
  by (auto simp: runOperation_def Let_def)

text \<open>\<open>LIMIT 2 OFFSET 1\<close> over four bindings: the second and the third, and \<open>totalItems = 2\<close>.\<close>

theorem runOperation_slices_witness:
  "runOperation
     (Inr \<lparr> stream_type = ''bindings'',
             stream_items = [[(''x'', NamedNode ''a'')], [(''x'', NamedNode ''b'')],
                             [(''x'', NamedNode ''c'')], [(''x'', NamedNode ''d'')]],
             stream_metadata = Some (Inr [(''totalItems'', JNum (Fin 4))]),
             stream_variables = [''x''] \<rparr>)
     \<lparr>start = 1, length' = Some 2\<rparr>
   = Inr \<lparr> stream_type = ''bindings'',
           stream_items = [[(''x'', NamedNode ''b'')], [(''x'', NamedNode ''c'')]],
           stream_metadata = Some (Inr [(''totalItems'', JNum (Fin 2))]),
           stream_variables = [''x''] \<rparr>"
proof -
  have safe: "safe_integer (start \<lparr>start = 1, length' = Some 2\<rparr>)"
    "\<forall>l. length' \<lparr>start = 1, length' = Some 2\<rparr> = Some l
         \<longrightarrow> safe_integer l \<and> safe_integer (start \<lparr>start = 1, length' = Some 2\<rparr> + l)"
    by (simp_all add: safe_integer_def exact_limit_def)
  have md: "sliceMetadata (Some (Inr [(''totalItems'', JNum (Fin 4))]))
              \<lparr>start = 1, length' = Some 2\<rparr>
            = Some (Inr [(''totalItems'', JNum (Fin 2))])"
    by (simp add: sliceMetadata_def slicedMetadata_def isFinite_def hasLength_def js_minus_def
        Math_max_def Math_min_def Let_def get_prop_def set_prop_def round_double_exact
        exact_limit_def)
  from runOperation_slices[of "\<lparr> stream_type = ''bindings'',
             stream_items = [[(''x'', NamedNode ''a'')], [(''x'', NamedNode ''b'')],
                             [(''x'', NamedNode ''c'')], [(''x'', NamedNode ''d'')]],
             stream_metadata = Some (Inr [(''totalItems'', JNum (Fin 4))]),
             stream_variables = [''x''] \<rparr>" "\<lparr>start = 1, length' = Some 2\<rparr>", OF _ safe]
  obtain out where
    r: "runOperation
     (Inr \<lparr> stream_type = ''bindings'',
             stream_items = [[(''x'', NamedNode ''a'')], [(''x'', NamedNode ''b'')],
                             [(''x'', NamedNode ''c'')], [(''x'', NamedNode ''d'')]],
             stream_metadata = Some (Inr [(''totalItems'', JNum (Fin 4))]),
             stream_variables = [''x''] \<rparr>)
     \<lparr>start = 1, length' = Some 2\<rparr> = Inr out"
    and items: "stream_items out = [[(''x'', NamedNode ''b'')], [(''x'', NamedNode ''c'')]]"
    by auto
  from r have "stream_type out = ''bindings''" "stream_variables out = [''x'']"
    "stream_metadata out = Some (Inr [(''totalItems'', JNum (Fin 2))])"
    using md by (auto simp: runOperation_def Let_def)
  with items have "out = \<lparr> stream_type = ''bindings'',
           stream_items = [[(''x'', NamedNode ''b'')], [(''x'', NamedNode ''c'')]],
           stream_metadata = Some (Inr [(''totalItems'', JNum (Fin 2))]),
           stream_variables = [''x''] \<rparr>"
    by simp
  with r show ?thesis by simp
qed

lemma slicedMetadata_finite:
  assumes "get_prop m ''totalItems'' = JNum (Fin T)" and "\<bar>T - s\<bar> \<le> exact_limit"
  shows "slicedMetadata \<lparr>start = s, length' = Some l\<rparr> m
           = set_prop m ''totalItems'' (JNum (Fin (min (max 0 (T - s)) l)))"
    and "slicedMetadata \<lparr>start = s, length' = None\<rparr> m
           = set_prop m ''totalItems'' (JNum (Fin (max 0 (T - s))))"
  using assms
  by (simp_all add: slicedMetadata_def isFinite_def hasLength_def js_minus_exact Math_max_def
      Math_min_def Let_def max_def min_def)

lemma slicedMetadata_nonnegative_length:
  assumes "get_prop m ''totalItems'' = JNum (Fin T)" and "\<bar>T - s\<bar> \<le> exact_limit"
    and "0 \<le> l"
  shows "get_prop (slicedMetadata \<lparr>start = s, length' = Some l\<rparr> m) ''totalItems''
           = JNum (Fin (max 0 (min l (T - s))))"
  using assms by (simp add: slicedMetadata_finite get_prop_set_prop max_def min_def)

lemma slicedMetadata_absent_length:
  assumes "get_prop m ''totalItems'' = JNum (Fin T)" and "\<bar>T - s\<bar> \<le> exact_limit"
  shows "get_prop (slicedMetadata \<lparr>start = s, length' = None\<rparr> m) ''totalItems''
           = JNum (Fin (max 0 (T - s)))"
  using assms by (simp add: slicedMetadata_finite get_prop_set_prop)

lemma slicedMetadata_other_keys:
  "k \<noteq> ''totalItems'' \<Longrightarrow> map_of (slicedMetadata pattern m) k = map_of m k"
  by (simp add: slicedMetadata_def Let_def map_of_set_prop_other)

text \<open>
  Claim C5. The claim is that the sliced metadata reports
  \<open>totalItems = max(0, min(L, T - s))\<close>. The code computes \<open>min(max(0, T - s), L)\<close>, which
  is the same number for \<open>L \<ge> 0\<close> (lemma \<open>slicedMetadata_nonnegative_length\<close>) but not for
  a negative length: with \<open>start = 0\<close>, \<open>length = -1\<close> and a child total of 10 the metadata
  reports \<open>-1\<close> where the claim gives 0, while \<open>sliceStream\<close> clamps the same length to 0
  and emits nothing.
\<close>

theorem sliceMetadata_negative_length:
  "sliceMetadata (Some (Inr [(''pageSize'', JNum (Fin 100)), (''totalItems'', JNum (Fin 10))]))
       \<lparr>start = 0, length' = Some (- 1)\<rparr>
     = Some (Inr [(''pageSize'', JNum (Fin 100)), (''totalItems'', JNum (Fin (- 1)))])
   \<and> max 0 (min (- 1) (10 - 0)) = (0::int)
   \<and> sliceStream [(1::nat), 2, 3] \<lparr>start = 0, length' = Some (- 1)\<rparr> = []"
  by (simp add: sliceMetadata_def slicedMetadata_def isFinite_def hasLength_def js_minus_def
      Math_max_def Math_min_def Let_def get_prop_def set_prop_def sliceStream_present
      safe_integer_def round_double_exact exact_limit_def)

theorem sliceMetadata_negative_length_witness:
  "sliceMetadata (Some (Inr [(''pageSize'', JNum (Fin 100)), (''totalItems'', JNum (Fin 10))]))
       \<lparr>start = 0, length' = Some (- 1)\<rparr>
     \<noteq> Some (Inr [(''pageSize'', JNum (Fin 100)), (''totalItems'', JNum (Fin 0))])"
  using sliceMetadata_negative_length by simp

section \<open>Properties of ActorHttpNative.run and Runner.run\<close>

lemma headers_has_append: "headers_has (headers_append h n v) n"
  by (auto simp: headers_has_def headers_append_def update_conv' map_add_def
      split: option.splits)

lemma headers_has_append_iff:
  "headers_has (headers_append h m v) n \<longleftrightarrow> headers_has h n \<or> lower n = lower m"
  by (auto simp: headers_has_def headers_append_def update_conv' map_add_def
      split: option.splits)

lemma headers_has_foldl:
  "headers_has (foldl (\<lambda>h (n, v). headers_append h n v) acc pairs) n
     \<longleftrightarrow> headers_has acc n \<or> list_ex (\<lambda>p. lower (fst p) = lower n) pairs"
proof (induction pairs arbitrary: acc)
  case Nil
  then show ?case by simp
next
  case (Cons p pairs)
  obtain m v where p: "p = (m, v)" by (cases p)
  show ?case
    unfolding p using Cons.IH[of "headers_append acc m v"]
    by (auto simp: headers_has_append_iff)
qed

lemma headers_has_Headers:
  "headers_has (Headers pairs) n \<longleftrightarrow> list_ex (\<lambda>p. lower (fst p) = lower n) pairs"
  unfolding Headers_def headers_has_foldl by (simp add: headers_has_def)

lemma lower_user_agent: "lower ''user-agent'' = ''user-agent''"
  by (simp add: lower_def lower_char_def)

lemma init_headers_has_user_agent:
  "headers_has (init_headers_of action) ''user-agent'' \<longleftrightarrow>
     (case init action of
         Some i \<Rightarrow>
           (case init_headers i of
              Some pairs \<Rightarrow> list_ex (\<lambda>p. lower (fst p) = ''user-agent'') pairs
            | None \<Rightarrow> False)
       | None \<Rightarrow> False)"
proof (cases "init action")
  case None
  then show ?thesis by (simp add: init_headers_of_def headers_has_def)
next
  case (Some i)
  show ?thesis
  proof (cases "init_headers i")
    case None
    with Some show ?thesis by (simp add: init_headers_of_def Headers_def headers_has_def)
  next
    case (Some pairs)
    with \<open>init action = Some i\<close> show ?thesis
      by (simp add: init_headers_of_def headers_has_Headers lower_user_agent)
  qed
qed

lemma caller_user_agent_iff:
  "caller_user_agent action \<longleftrightarrow>
     headers_has (init_headers_of action) ''user-agent''
     \<or> headers_has (input_headers_of action) ''user-agent''"
  unfolding caller_user_agent_def init_headers_has_user_agent ..

lemma options_headers:
  "opt_headers (request_options_of actor action) =
     Some (let hs = (case init action of
                       Some i \<Rightarrow> init_headers_of action
                     | None \<Rightarrow> input_headers_of action)
           in if headers_has hs ''user-agent'' then hs
              else headers_append hs ''user-agent'' (userAgent actor))"
  by (simp add: request_options_of_def options_of_context_def options_user_agent_def
      options_of_init_def options_of_input_def init_headers_of_def input_headers_of_def Let_def
      split: option.splits http_input.splits)

lemma options_withCredentials:
  "withCredentials (request_options_of actor action) =
     (if truthy (context_value action KEY_CONTEXT_INCLUDE_CREDENTIALS) then Some (CBool True)
      else init_field init_withCredentials action)"
  by (simp add: request_options_of_def options_of_context_def options_user_agent_def
      options_of_init_def options_of_input_def context_value_def init_field_def Let_def
      split: option.splits http_input.splits)

lemma options_auth:
  "auth (request_options_of actor action) =
     (if truthy (context_value action KEY_CONTEXT_AUTH)
      then context_value action KEY_CONTEXT_AUTH
      else init_field init_auth action)"
  by (simp add: request_options_of_def options_of_context_def options_user_agent_def
      options_of_init_def options_of_input_def context_value_def init_field_def Let_def
      split: option.splits http_input.splits)

text \<open>
  Claim C8, as amended. The request always carries a user-agent header. Unless \<open>init\<close> is
  given while a \<open>Request\<close> input carries a user agent of its own (a case left open here),
  the default user agent of the actor is appended exactly when the caller supplied none, in
  the headers of \<open>init\<close> or of the input, under any case of the name. \<open>withCredentials\<close> is
  set to true when the context has a true include-credentials flag and is otherwise what
  \<open>init\<close> carries. The \<open>auth\<close> value of the context is copied into the request when it passes
  the truth test (a non-empty string); otherwise the field is what \<open>init\<close> carries.
\<close>

theorem request_options_fields:
  "(\<exists>h. opt_headers (request_options_of actor action) = Some h \<and> headers_has h ''user-agent'')
   \<and> (init action = None \<or> \<not> headers_has (input_headers_of action) ''user-agent'' \<longrightarrow>
        opt_headers (request_options_of actor action) =
          Some (if caller_user_agent action
                then (if init action = None then input_headers_of action
                      else init_headers_of action)
                else (if init action = None then input_headers_of action
                      else init_headers_of action) @ [(''user-agent'', userAgent actor)]))
   \<and> withCredentials (request_options_of actor action) =
       (if truthy (context_value action KEY_CONTEXT_INCLUDE_CREDENTIALS) then Some (CBool True)
        else init_field init_withCredentials action)
   \<and> auth (request_options_of actor action) =
       (if truthy (context_value action KEY_CONTEXT_AUTH)
        then context_value action KEY_CONTEXT_AUTH
        else init_field init_auth action)"
proof -
  have carries: "\<exists>h. opt_headers (request_options_of actor action) = Some h
                   \<and> headers_has h ''user-agent''"
    unfolding options_headers by (simp add: Let_def headers_has_append)
  have agent: "opt_headers (request_options_of actor action) =
          Some (if caller_user_agent action
                then (if init action = None then input_headers_of action
                      else init_headers_of action)
                else (if init action = None then input_headers_of action
                      else init_headers_of action) @ [(''user-agent'', userAgent actor)])"
    if "init action = None \<or> \<not> headers_has (input_headers_of action) ''user-agent''"
  proof (cases "init action")
    case None
    then have "init_headers_of action = []" by (simp add: init_headers_of_def)
    with None show ?thesis
      unfolding options_headers caller_user_agent_iff
      by (simp add: Let_def headers_has_def headers_append_def lower_def lower_char_def)
  next
    case (Some i)
    with that have "\<not> headers_has (input_headers_of action) ''user-agent''" by simp
    with Some show ?thesis
      unfolding options_headers caller_user_agent_iff
      by (simp add: Let_def headers_has_def headers_append_def lower_def lower_char_def)
  qed
  from carries agent show ?thesis
    by (simp only: options_withCredentials options_auth) simp
qed

theorem request_options_fields_witness:
  "opt_headers (request_options_of example_http_actor example_http_action) =
     Some [(''accept'', ''text/turtle''), (''user-agent'', ''Comunica/actor-http-native'')]
   \<and> withCredentials (request_options_of example_http_actor example_http_action)
       = Some (CBool True)
   \<and> auth (request_options_of example_http_actor example_http_action)
       = Some (CStr ''user:password'')
   \<and> opt_headers (request_options_of example_http_actor example_http_action_agent) =
     Some [(''user-agent'', ''caller-agent'')]
   \<and> auth (request_options_of example_http_actor example_http_action_agent)
       = Some (CStr ''init:secret'')"
proof -
  have h1: "init_headers_of example_http_action = [(''accept'', ''text/turtle'')]"
    "input_headers_of example_http_action = []"
    "init example_http_action \<noteq> None"
    by (simp_all add: init_headers_of_def input_headers_of_def example_http_action_def
        Headers_def headers_append_def lower_def lower_char_def)
  have h2: "init_headers_of example_http_action_agent = [(''user-agent'', ''caller-agent'')]"
    "input_headers_of example_http_action_agent = []"
    "init example_http_action_agent \<noteq> None"
    by (simp_all add: init_headers_of_def input_headers_of_def example_http_action_agent_def
        Headers_def headers_append_def lower_def lower_char_def)
  have c1: "context_value example_http_action KEY_CONTEXT_INCLUDE_CREDENTIALS = Some (CBool True)"
    "context_value example_http_action KEY_CONTEXT_AUTH = Some (CStr ''user:password'')"
    by (simp_all add: context_value_def ctx_get_def example_http_action_def
        KEY_CONTEXT_INCLUDE_CREDENTIALS_def KEY_CONTEXT_AUTH_def)
  have c2: "context_value example_http_action_agent KEY_CONTEXT_AUTH = None"
    "init_field init_auth example_http_action_agent = Some (CStr ''init:secret'')"
    by (simp_all add: context_value_def init_field_def example_http_action_agent_def)
  from request_options_fields[of example_http_actor example_http_action]
    request_options_fields[of example_http_actor example_http_action_agent]
  show ?thesis
    by (simp add: h1 h2 c1 c2 caller_user_agent_iff headers_has_def lower_def lower_char_def
        example_http_actor_def)
qed

text \<open>
  The claim as stated fails in two places: \<open>withCredentials\<close> is set from \<open>init\<close> although
  the context has no include-credentials flag, and an \<open>auth\<close> value that is present in the
  context but the empty string is not copied.
\<close>

theorem request_options_fields_counterexample:
  "context_value example_http_action_init_credentials KEY_CONTEXT_INCLUDE_CREDENTIALS = None
   \<and> withCredentials (request_options_of example_http_actor example_http_action_init_credentials)
       = Some (CBool True)
   \<and> context_value example_http_action_init_credentials KEY_CONTEXT_AUTH = Some (CStr [])
   \<and> auth (request_options_of example_http_actor example_http_action_init_credentials) = None"
  by (simp add: options_withCredentials options_auth example_http_action_init_credentials_def
      context_value_def ctx_get_def init_field_def
      KEY_CONTEXT_AUTH_def KEY_CONTEXT_INCLUDE_CREDENTIALS_def)

text \<open>
  Claim C10. Every result that \<open>run\<close> resolves with comes from a response of the requester;
  its \<open>ok\<close> field is true iff the status code of the response is below 300, and its
  \<open>url\<close> field is the content-location header when the response has one, otherwise the
  response URL.
\<close>

theorem run_result_ok_url:
  assumes "ActorHttpNative_run actor action = Inr result"
  shows "\<exists>httpResponse.
           createRequest actor (request_options_of actor action) = Response httpResponse None
         \<and> (ok result \<longleftrightarrow> statusCode httpResponse < 300)
         \<and> status result = statusCode httpResponse
         \<and> url result =
             (case map_of (response_headers httpResponse) ''content-location'' of
                Some location \<Rightarrow> location
              | None \<Rightarrow> responseUrl httpResponse)"
  using assms
  by (auto simp: ActorHttpNative_run_def http_result_def Let_def
      split: request_events.splits option.splits)

theorem run_result_ok_url_witness:
  "ActorHttpNative_run example_http_actor example_http_action
     = Inr \<lparr> body = example_response,
             headers = response_headers example_response,
             ok = True, redirected = False, status = 200, url = ''http://ex/data.ttl'' \<rparr>"
proof -
  have r: "ActorHttpNative_run example_http_actor example_http_action
     = Inr \<lparr> body = example_response,
             headers = response_headers example_response,
             ok = True, redirected = False, status = 200, url = ''http://ex/data.ttl'' \<rparr>"
    by (simp add: ActorHttpNative_run_def http_result_def example_http_actor_def
        example_response_def example_http_action_def request_options_of_def
        options_of_context_def options_user_agent_def options_of_init_def
        options_of_input_def Let_def)
  from run_result_ok_url[OF r] r show ?thesis by simp
qed

lemma run_replies_publish:
  "run_replies (publish busInit action) action s = run_actors busInit action s"
  by (induction busInit arbitrary: s) (simp_all add: publish_def)

lemma run_actors_test_independent:
  "run_actors (map (\<lambda>a. a\<lparr>actor_test := t a\<rparr>) busInit) action s = run_actors busInit action s"
  by (induction busInit arbitrary: s) simp_all

lemma run_actors_length: "length (fst (run_actors busInit action s)) = length busInit"
proof (induction busInit arbitrary: s)
  case Nil
  then show ?case by simp
next
  case (Cons a busInit)
  obtain p s1 where a: "runObservable a action s = (p, s1)" by (cases "runObservable a action s")
  obtain ps s2 where b: "run_actors busInit action s1 = (ps, s2)"
    by (cases "run_actors busInit action s1")
  from Cons.IH[of s1] b have "length ps = length busInit" by simp
  with a b show ?case by simp
qed

text \<open>
  Claim C9. \<open>Runner.run\<close> calls \<open>runObservable\<close> on every actor of the init bus, in order:
  there is one run promise per actor, replacing the tests of the actors by any others
  changes nothing (no winner is selected and no failed test filters an actor out), and when
  every run resolves the result is the list of all the outputs.
\<close>

theorem Runner_run_all_actors:
  "Runner_run busInit action s =
     (promise_all (fst (run_actors busInit action s)), snd (run_actors busInit action s))
   \<and> length (fst (run_actors busInit action s)) = length busInit
   \<and> Runner_run (map (\<lambda>a. a\<lparr>actor_test := t a\<rparr>) busInit) action s = Runner_run busInit action s
   \<and> ((\<forall>p \<in> set (fst (run_actors busInit action s)). \<exists>out. p = Inr out) \<longrightarrow>
        fst (Runner_run busInit action s) = Inr (map projr (fst (run_actors busInit action s))))"
  by (simp add: Runner_run_def run_replies_publish run_actors_test_independent run_actors_length
      promise_all_Inr split: prod.splits)

theorem Runner_run_all_actors_witness:
  "Runner_run example_bus () [] =
     (Inr [''output of a'', ''output of b'', ''output of c''], [''a'', ''b'', ''c''])"
proof -
  have r: "run_actors example_bus () [] =
     ([Inr ''output of a'', Inr ''output of b'', Inr ''output of c''], [''a'', ''b'', ''c''])"
    by (simp add: example_bus_def example_init_actor_def)
  from Runner_run_all_actors[of example_bus "()" "[]"] show ?thesis
    unfolding r by simp
qed

end
